theory Spec2Isabelle
  imports Complex_Main "HOL-Library.Sublist"
begin

section \<open>Bubble shooter physics engine: data model\<close>

text \<open>
  The engine of \<^verbatim>\<open>src/core_engine/physics_engine.cpp\<close> computes on C++ \<^verbatim>\<open>float\<close>.
  Here a \<^verbatim>\<open>float\<close> is a \<^typ>\<open>real\<close>: \<^verbatim>\<open>std::sqrt\<close>, \<^verbatim>\<open>std::sin\<close> and
  \<^verbatim>\<open>std::cos\<close> are \<^const>\<open>sqrt\<close>, \<^const>\<open>sin\<close> and \<^const>\<open>cos\<close>, and every float literal
  is the decimal it is written as. Rounding, overflow to infinity and NaN are outside
  this model. An \<^verbatim>\<open>int\<close> is an \<^typ>\<open>int\<close>; the counters of the engine would need
  \<open>2 ^ 31\<close> collisions to overflow.
\<close>

text \<open>\<^verbatim>\<open>constexpr float PI = 3.14159265358979323846f\<close>\<close>

definition PI :: real where
  "PI = 3.14159265358979323846"

text \<open>\<^verbatim>\<open>struct Vector2D { float x, y; }\<close>\<close>

record Vector2D =
  x :: real
  y :: real

text \<open>\<^verbatim>\<open>class GameObject\<close>: position, velocity, radius and the active flag.\<close>

record GameObject =
  position :: Vector2D
  velocity :: Vector2D
  radius :: real
  active :: bool

text \<open>
  \<^verbatim>\<open>class Bubble : public GameObject\<close> and \<^verbatim>\<open>class Bullet : public GameObject\<close>
  extend the base record. Both classes have a field \<^verbatim>\<open>speed\<close>; the two selectors are
  written \<open>Bubble.speed\<close> and \<open>Bullet.speed\<close>.
\<close>

record Bubble = GameObject +
  colorIndex :: int
  speed :: real
  isSpecial :: bool

record Bullet = GameObject +
  speed :: real
  maxDistance :: real
  distanceTraveled :: real

text \<open>
  \<^verbatim>\<open>class PhysicsEngine\<close>: the two collections are \<^verbatim>\<open>std::vector\<close>s, here lists in
  collection order.
\<close>

record PhysicsEngine =
  bubbles :: "Bubble list"
  bullets :: "Bullet list"
  gameTime :: real
  bubblesDestroyed :: int
  speedMultiplier :: real

text \<open>
  \<^verbatim>\<open>rand()\<close> reads and advances the global state of the C library. The state is
  made explicit as the sequence of the values the next calls will return; a value
  is a natural number, since \<^verbatim>\<open>rand()\<close> never returns a negative one.
  \<^verbatim>\<open>RAND_MAX\<close> is a macro of \<^verbatim>\<open>cstdlib\<close> and not part of the repository: every
  function that uses it takes it as the parameter \<open>rmax\<close>.
\<close>

type_synonym rng = "nat \<Rightarrow> nat"

definition rand :: "rng \<Rightarrow> int \<times> rng" where
  "rand g = (int (g 0), \<lambda>n. g (Suc n))"

text \<open>The expression \<^verbatim>\<open>static_cast<float>(rand()) / RAND_MAX\<close>.\<close>

definition rand_unit :: "int \<Rightarrow> rng \<Rightarrow> real \<times> rng" where
  "rand_unit rmax g = (case rand g of (r, g') \<Rightarrow> (real_of_int r / real_of_int rmax, g'))"

section \<open>Game objects\<close>

text \<open>\<^verbatim>\<open>GameObject::update\<close>: one explicit Euler step of the position.\<close>

definition GameObject_update :: "real \<Rightarrow> 'a GameObject_scheme \<Rightarrow> 'a GameObject_scheme" where
  "GameObject_update deltaTime ob =
     (let ob1 = ob\<lparr>position := (position ob)\<lparr>x := x (position ob) + x (velocity ob) * deltaTime\<rparr>\<rparr>;
          ob2 = ob1\<lparr>position := (position ob1)\<lparr>y := y (position ob1) + y (velocity ob1) * deltaTime\<rparr>\<rparr>
      in ob2)"

text \<open>
  The constructor \<^verbatim>\<open>Bubble(x, y, radius, speed, colorIndex = 0)\<close>: the base
  constructor sets velocity \<open>(0, 0)\<close> and \<^verbatim>\<open>active = true\<close>, the body sets
  \<^verbatim>\<open>velocity.y = speed\<close>.
\<close>

definition Bubble_new :: "real \<Rightarrow> real \<Rightarrow> real \<Rightarrow> real \<Rightarrow> int \<Rightarrow> Bubble" where
  "Bubble_new px py r s c =
     (let b = \<lparr>position = \<lparr>x = px, y = py\<rparr>, velocity = \<lparr>x = 0, y = 0\<rparr>, radius = r,
               active = True, colorIndex = c, Bubble.speed = s, isSpecial = False\<rparr>
      in b\<lparr>velocity := (velocity b)\<lparr>y := s\<rparr>\<rparr>)"

text \<open>\<^verbatim>\<open>Bubble::update\<close>\<close>

definition Bubble_update :: "real \<Rightarrow> Bubble \<Rightarrow> Bubble" where
  "Bubble_update deltaTime b =
     (let b1 = b\<lparr>velocity := (velocity b)\<lparr>y := y (velocity b) + 0.1 * deltaTime * Bubble.speed b\<rparr>\<rparr>;
          b2 = b1\<lparr>velocity := (velocity b1)\<lparr>x := sin (y (position b1) * 0.01) * 0.5\<rparr>\<rparr>
      in GameObject_update deltaTime b2)"

text \<open>
  The constructor \<^verbatim>\<open>Bullet(x, y, angle, speed = 8.0f)\<close>: radius 5,
  \<^verbatim>\<open>maxDistance\<close> 1000, \<^verbatim>\<open>distanceTraveled\<close> 0.
\<close>

definition Bullet_new :: "real \<Rightarrow> real \<Rightarrow> real \<Rightarrow> real \<Rightarrow> Bullet" where
  "Bullet_new px py angle s =
     (let b = \<lparr>position = \<lparr>x = px, y = py\<rparr>, velocity = \<lparr>x = 0, y = 0\<rparr>, radius = 5,
               active = True, Bullet.speed = s, maxDistance = 1000, distanceTraveled = 0\<rparr>;
          b1 = b\<lparr>velocity := (velocity b)\<lparr>x := cos angle * s\<rparr>\<rparr>
      in b1\<lparr>velocity := (velocity b1)\<lparr>y := - sin angle * s\<rparr>\<rparr>)"

text \<open>\<^verbatim>\<open>Bullet::update\<close>\<close>

definition Bullet_update :: "real \<Rightarrow> Bullet \<Rightarrow> Bullet" where
  "Bullet_update deltaTime b =
     (let b1 = GameObject_update deltaTime b;
          b2 = b1\<lparr>distanceTraveled := distanceTraveled b1
                 + sqrt (x (velocity b1) * x (velocity b1) + y (velocity b1) * y (velocity b1)) * deltaTime\<rparr>
      in if distanceTraveled b2 > maxDistance b2 then b2\<lparr>active := False\<rparr> else b2)"

section \<open>The physics engine\<close>

text \<open>The constructor \<^verbatim>\<open>PhysicsEngine()\<close>: two empty collections, counters at zero.\<close>

definition PhysicsEngine_new :: PhysicsEngine where
  "PhysicsEngine_new =
     \<lparr>bubbles = [], bullets = [], gameTime = 0, bubblesDestroyed = 0, speedMultiplier = 1\<rparr>"

text \<open>
  The loop of \<^verbatim>\<open>initialize\<close>. Each round calls \<^verbatim>\<open>rand()\<close> five times, in the order
  radius, x, y, speed, colour, and appends one bubble.
\<close>

function initialize_loop :: "int \<Rightarrow> int \<Rightarrow> int \<Rightarrow> real \<Rightarrow> Bubble list \<times> rng \<Rightarrow> Bubble list \<times> rng" where
  "initialize_loop rmax i bubbleCount canvasWidth (bs, g) =
     (if i < bubbleCount then
        (let (u1, g1) = rand_unit rmax g;
             r = 12 + u1 * 8;
             (u2, g2) = rand_unit rmax g1;
             px = r + u2 * (canvasWidth - 2 * r);
             (u3, g3) = rand_unit rmax g2;
             py = - r - u3 * 100;
             (u4, g4) = rand_unit rmax g3;
             s = 1 + u4 * 1.5;
             (k, g5) = rand g4;
             color = k mod 5
         in initialize_loop rmax (i + 1) bubbleCount canvasWidth
              (bs @ [Bubble_new px py r s color], g5))
      else (bs, g))"
  by pat_completeness auto
termination
  by (relation "measure (\<lambda>(rmax, i, bubbleCount, canvasWidth, st). nat (bubbleCount - i))") auto

declare initialize_loop.simps [simp del]

text \<open>\<^verbatim>\<open>PhysicsEngine::initialize\<close>\<close>

definition initialize :: "int \<Rightarrow> int \<Rightarrow> real \<Rightarrow> PhysicsEngine \<times> rng \<Rightarrow> PhysicsEngine \<times> rng" where
  "initialize rmax bubbleCount canvasWidth st =
     (case st of (w, g) \<Rightarrow>
        (let w1 = w\<lparr>bubbles := []\<rparr>;
             w2 = w1\<lparr>bullets := []\<rparr>;
             (bs, g') = initialize_loop rmax 0 bubbleCount canvasWidth (bubbles w2, g);
             w3 = w2\<lparr>bubbles := bs\<rparr>;
             w4 = w3\<lparr>gameTime := 0\<rparr>
         in (w4\<lparr>bubblesDestroyed := 0\<rparr>, g')))"

text \<open>\<^verbatim>\<open>PhysicsEngine::addBubble\<close> and \<^verbatim>\<open>PhysicsEngine::shootBullet\<close>\<close>

definition addBubble :: "real \<Rightarrow> real \<Rightarrow> real \<Rightarrow> real \<Rightarrow> int \<Rightarrow> PhysicsEngine \<Rightarrow> PhysicsEngine" where
  "addBubble px py r s color w = w\<lparr>bubbles := bubbles w @ [Bubble_new px py r s color]\<rparr>"

definition shootBullet :: "real \<Rightarrow> real \<Rightarrow> real \<Rightarrow> PhysicsEngine \<Rightarrow> PhysicsEngine" where
  "shootBullet px py angle w = w\<lparr>bullets := bullets w @ [Bullet_new px py angle 8]\<rparr>"

text \<open>
  The loop of \<^verbatim>\<open>createExplosion\<close>: one call of \<^verbatim>\<open>rand()\<close> for the speed of each
  particle; the particle is built by the \<^verbatim>\<open>Bubble\<close> constructor with the default
  colour 0, then its velocity and colour are overwritten.
\<close>

function createExplosion_loop ::
  "int \<Rightarrow> int \<Rightarrow> int \<Rightarrow> real \<Rightarrow> real \<Rightarrow> real \<Rightarrow> Bubble list \<times> rng \<Rightarrow> Bubble list \<times> rng" where
  "createExplosion_loop rmax i particleCount px py r (bs, g) =
     (if i < particleCount then
        (let angle = 2 * PI * real_of_int i / real_of_int particleCount;
             (u, g') = rand_unit rmax g;
             s = 2 + u * 3;
             particleRadius = r * 0.3;
             particle = Bubble_new px py particleRadius s 0;
             particle1 = particle\<lparr>velocity := (velocity particle)\<lparr>x := cos angle * s\<rparr>\<rparr>;
             particle2 = particle1\<lparr>velocity := (velocity particle1)\<lparr>y := sin angle * s\<rparr>\<rparr>;
             particle3 = particle2\<lparr>colorIndex := 4\<rparr>
         in createExplosion_loop rmax (i + 1) particleCount px py r (bs @ [particle3], g'))
      else (bs, g))"
  by pat_completeness auto
termination
  by (relation "measure (\<lambda>(rmax, i, particleCount, px, py, r, st). nat (particleCount - i))") auto

declare createExplosion_loop.simps [simp del]

text \<open>\<^verbatim>\<open>PhysicsEngine::createExplosion\<close>\<close>

definition createExplosion :: "int \<Rightarrow> real \<Rightarrow> real \<Rightarrow> real \<Rightarrow> PhysicsEngine \<times> rng \<Rightarrow> PhysicsEngine \<times> rng" where
  "createExplosion rmax px py r st =
     (case st of (w, g) \<Rightarrow>
        (let (k, g1) = rand g;
             particleCount = 6 + k mod 4;
             (bs, g2) = createExplosion_loop rmax 0 particleCount px py r (bubbles w, g1)
         in (w\<lparr>bubbles := bs\<rparr>, g2)))"

text \<open>
  The test of \<^verbatim>\<open>checkCollisions\<close> on one bullet and one bubble: the distance of
  the two centres against the sum of the two radii.
\<close>

definition hits :: "Bullet \<Rightarrow> Bubble \<Rightarrow> bool" where
  "hits bullet bubble =
     (let dx = x (position bullet) - x (position bubble);
          dy = y (position bullet) - y (position bubble);
          distance = sqrt (dx * dx + dy * dy)
      in distance < radius bullet + radius bubble)"

text \<open>
  The inner loop of \<^verbatim>\<open>checkCollisions\<close> for one bullet: inactive bubbles are
  skipped, the first active bubble that the bullet hits is marked inactive and the
  loop breaks. The result is the collection after the loop and the bubble that was
  hit, if any.
\<close>

fun scanBubbles :: "Bullet \<Rightarrow> Bubble list \<Rightarrow> Bubble list \<times> Bubble option" where
  "scanBubbles bullet [] = ([], None)"
| "scanBubbles bullet (bubble # rest) =
     (if \<not> active bubble then
        (case scanBubbles bullet rest of (rest', h) \<Rightarrow> (bubble # rest', h))
      else if hits bullet bubble then (bubble\<lparr>active := False\<rparr> # rest, Some bubble)
      else (case scanBubbles bullet rest of (rest', h) \<Rightarrow> (bubble # rest', h)))"

text \<open>
  The body of the outer loop for one bullet. The state is the number of collisions
  counted so far, the engine and the random source.
\<close>

definition collideBullet ::
  "int \<Rightarrow> Bullet \<Rightarrow> int \<times> PhysicsEngine \<times> rng \<Rightarrow> Bullet \<times> (int \<times> PhysicsEngine \<times> rng)" where
  "collideBullet rmax bullet st =
     (case st of (collisions, w, g) \<Rightarrow>
        if \<not> active bullet then (bullet, st)
        else (case scanBubbles bullet (bubbles w) of
                (bs, None) \<Rightarrow> (bullet, st)
              | (bs, Some bubble) \<Rightarrow>
                  (let w1 = w\<lparr>bubbles := bs\<rparr>;
                       w2 = w1\<lparr>bubblesDestroyed := bubblesDestroyed w1 + 1\<rparr>;
                       (w3, g') = createExplosion rmax (x (position bubble)) (y (position bubble))
                                    (radius bubble) (w2, g)
                   in (bullet\<lparr>active := False\<rparr>, (collisions + 1, w3, g')))))"

text \<open>The outer loop, over the bullets in collection order.\<close>

fun collideBullets ::
  "int \<Rightarrow> Bullet list \<Rightarrow> int \<times> PhysicsEngine \<times> rng \<Rightarrow> Bullet list \<times> (int \<times> PhysicsEngine \<times> rng)" where
  "collideBullets rmax [] st = ([], st)"
| "collideBullets rmax (bullet # rest) st =
     (case collideBullet rmax bullet st of (bullet', st') \<Rightarrow>
        (case collideBullets rmax rest st' of (rest', st'') \<Rightarrow> (bullet' # rest', st'')))"

text \<open>\<^verbatim>\<open>PhysicsEngine::checkCollisions\<close>: returns the number of collisions.\<close>

definition checkCollisions :: "int \<Rightarrow> PhysicsEngine \<times> rng \<Rightarrow> int \<times> PhysicsEngine \<times> rng" where
  "checkCollisions rmax st =
     (case st of (w, g) \<Rightarrow>
        (case collideBullets rmax (bullets w) (0, w, g) of
           (bls, (collisions, w', g')) \<Rightarrow> (collisions, w'\<lparr>bullets := bls\<rparr>, g')))"

text \<open>
  \<^verbatim>\<open>vec.erase(std::remove_if(vec.begin(), vec.end(), pred), vec.end())\<close>: the
  elements for which the predicate holds are dropped.
\<close>

primrec erase_remove_if :: "('a \<Rightarrow> bool) \<Rightarrow> 'a list \<Rightarrow> 'a list" where
  "erase_remove_if pred [] = []"
| "erase_remove_if pred (a # as) =
     (if pred a then erase_remove_if pred as else a # erase_remove_if pred as)"

text \<open>\<^verbatim>\<open>PhysicsEngine::cleanup\<close>\<close>

definition cleanup :: "PhysicsEngine \<Rightarrow> PhysicsEngine" where
  "cleanup w =
     (let w1 = w\<lparr>bubbles := erase_remove_if (\<lambda>b. \<not> active b) (bubbles w)\<rparr>
      in w1\<lparr>bullets := erase_remove_if (\<lambda>b. \<not> active b) (bullets w1)\<rparr>)"

text \<open>
  The first three steps of \<^verbatim>\<open>PhysicsEngine::update\<close>: the clock, then the two
  loops that update the active bubbles and the active bullets.
\<close>

definition update_objects :: "real \<Rightarrow> PhysicsEngine \<Rightarrow> PhysicsEngine" where
  "update_objects deltaTime w =
     (let w1 = w\<lparr>gameTime := gameTime w + deltaTime\<rparr>;
          w2 = w1\<lparr>bubbles := map (\<lambda>bubble. if active bubble then Bubble_update deltaTime bubble
                                           else bubble) (bubbles w1)\<rparr>
      in w2\<lparr>bullets := map (\<lambda>bullet. if active bullet then Bullet_update deltaTime bullet
                                     else bullet) (bullets w2)\<rparr>)"

text \<open>\<^verbatim>\<open>PhysicsEngine::update\<close>; the result of \<^verbatim>\<open>checkCollisions\<close> is discarded.\<close>

definition update :: "int \<Rightarrow> real \<Rightarrow> PhysicsEngine \<times> rng \<Rightarrow> PhysicsEngine \<times> rng" where
  "update rmax deltaTime st =
     (case st of (w, g) \<Rightarrow>
        (case checkCollisions rmax (update_objects deltaTime w, g) of
           (collisions, w', g') \<Rightarrow> (cleanup w', g')))"

text \<open>\<^verbatim>\<open>PhysicsEngine::setSpeedMultiplier\<close>\<close>

definition setSpeedMultiplier :: "real \<Rightarrow> PhysicsEngine \<Rightarrow> PhysicsEngine" where
  "setSpeedMultiplier multiplier w =
     (let w1 = w\<lparr>speedMultiplier := multiplier\<rparr>
      in w1\<lparr>bubbles := map (\<lambda>bubble.
              (let b1 = bubble\<lparr>Bubble.speed := Bubble.speed bubble * multiplier\<rparr>
               in b1\<lparr>velocity := (velocity b1)\<lparr>y := Bubble.speed b1\<rparr>\<rparr>)) (bubbles w1)\<rparr>)"

text \<open>
  \<^verbatim>\<open>PhysicsEngine::predictTrajectory\<close>. The JavaScript array of points is a list of
  vectors; \<^verbatim>\<open>trajectory.set(i, point)\<close> writes at the index \<open>i\<close>, which is the length
  of the array at that moment. The function has no engine argument: the source reads
  no member of the engine.
\<close>

function predictTrajectory_loop ::
  "int \<Rightarrow> int \<Rightarrow> real \<Rightarrow> real \<Rightarrow> real \<times> real \<times> Vector2D list \<Rightarrow> Vector2D list" where
  "predictTrajectory_loop i steps vx vy (px, py, trajectory) =
     (if i < steps then
        predictTrajectory_loop (i + 1) steps vx vy
          (px + vx * 0.016, py + vy * 0.016, trajectory @ [\<lparr>x = px, y = py\<rparr>])
      else trajectory)"
  by pat_completeness auto
termination
  by (relation "measure (\<lambda>(i, steps, vx, vy, st). nat (steps - i))") auto

declare predictTrajectory_loop.simps [simp del]

definition predictTrajectory :: "real \<Rightarrow> real \<Rightarrow> real \<Rightarrow> real \<Rightarrow> int \<Rightarrow> Vector2D list" where
  "predictTrajectory startX startY angle s steps =
     (let vx = cos angle * s;
          vy = - sin angle * s
      in predictTrajectory_loop 0 steps vx vy (startX, startY, []))"

section \<open>Example worlds\<close>

text \<open>
  One bubble at the origin and one bullet shot to the right from \<open>(100, 0)\<close>: the two
  never touch.
\<close>

definition apart_world :: PhysicsEngine where
  "apart_world = shootBullet 100 0 0 (addBubble 0 0 10 1 0 PhysicsEngine_new)"

text \<open>The random source that always returns 0.\<close>

definition zero_rng :: rng where
  "zero_rng = (\<lambda>n. 0)"

section \<open>Definitions that follow the words of the specification\<close>

text \<open>
  The explosion particle of section 4.8 of the specification: particle \<open>i\<close> of
  \<open>particleCount\<close>, spawned at \<open>(px, py)\<close> for a destroyed bubble of radius \<open>r\<close>, with
  the value \<open>d\<close> of \<^verbatim>\<open>rand()\<close> for its speed. It is compared with what the loop of
  \<open>createExplosion\<close> appends.
\<close>

definition spec_particle :: "int \<Rightarrow> real \<Rightarrow> real \<Rightarrow> real \<Rightarrow> int \<Rightarrow> int \<Rightarrow> nat \<Rightarrow> Bubble" where
  "spec_particle rmax px py r particleCount i d =
     \<lparr>position = \<lparr>x = px, y = py\<rparr>,
      velocity = \<lparr>x = cos (2 * PI * real_of_int i / real_of_int particleCount)
                        * (2 + real d / real_of_int rmax * 3),
                  y = sin (2 * PI * real_of_int i / real_of_int particleCount)
                        * (2 + real d / real_of_int rmax * 3)\<rparr>,
      radius = r * 0.3, active = True, colorIndex = 4,
      Bubble.speed = 2 + real d / real_of_int rmax * 3, isSpecial = False\<rparr>"

text \<open>
  The ranges of section 4.5 of the specification for a bubble spawned by
  \<open>initialize\<close>, with every interval closed, and the range of \<open>x\<close> only for a canvas
  at least as wide as the bubble.
\<close>

definition spawn_ranges :: "real \<Rightarrow> Bubble \<Rightarrow> bool" where
  "spawn_ranges canvasWidth b \<longleftrightarrow>
     12 \<le> radius b \<and> radius b \<le> 20
     \<and> (2 * radius b \<le> canvasWidth \<longrightarrow>
          radius b \<le> x (position b) \<and> x (position b) \<le> canvasWidth - radius b)
     \<and> - radius b - 100 \<le> y (position b) \<and> y (position b) \<le> - radius b
     \<and> 1 \<le> Bubble.speed b \<and> Bubble.speed b \<le> 2.5
     \<and> colorIndex b \<in> {0, 1, 2, 3, 4}"

text \<open>
  A random source whose third value is 0 and whose other values are
  \<^verbatim>\<open>RAND_MAX = 2147483647\<close> (the value of the macro in the C library of Emscripten),
  the bubble that \<open>initialize\<close> spawns from it on a canvas of width 30, and the first
  particle that \<open>createExplosion\<close> spawns from it.
\<close>

definition edge_rng :: rng where
  "edge_rng = (\<lambda>n. if n = 2 then 0 else 2147483647)"

definition edge_spawn :: Bubble where
  "edge_spawn = hd (bubbles (fst (initialize 2147483647 1 30 (PhysicsEngine_new, edge_rng))))"

definition edge_particle :: Bubble where
  "edge_particle = hd (bubbles (fst (createExplosion 2147483647 0 0 10 (PhysicsEngine_new, edge_rng))))"

section \<open>Reachable engine states\<close>

text \<open>
  The states an engine can be in: the state the constructor builds, and every state
  that a public member function of \<^verbatim>\<open>PhysicsEngine\<close> that changes the engine makes from
  one of them, for any arguments and any state of the random source. The queries
  change nothing and are left out.
\<close>

inductive reachable :: "int \<Rightarrow> PhysicsEngine \<Rightarrow> bool" for rmax :: int where
  reach_new: "reachable rmax PhysicsEngine_new"
| reach_initialize:
    "reachable rmax w \<Longrightarrow> reachable rmax (fst (initialize rmax bubbleCount canvasWidth (w, g)))"
| reach_update: "reachable rmax w \<Longrightarrow> reachable rmax (fst (update rmax deltaTime (w, g)))"
| reach_addBubble: "reachable rmax w \<Longrightarrow> reachable rmax (addBubble px py r s color w)"
| reach_shootBullet: "reachable rmax w \<Longrightarrow> reachable rmax (shootBullet px py angle w)"
| reach_checkCollisions:
    "reachable rmax w \<Longrightarrow> reachable rmax (fst (snd (checkCollisions rmax (w, g))))"
| reach_createExplosion:
    "reachable rmax w \<Longrightarrow> reachable rmax (fst (createExplosion rmax px py r (w, g)))"
| reach_cleanup: "reachable rmax w \<Longrightarrow> reachable rmax (cleanup w)"
| reach_setSpeedMultiplier: "reachable rmax w \<Longrightarrow> reachable rmax (setSpeedMultiplier multiplier w)"

text \<open>
  One bubble at the origin and one bullet shot from its centre, and one bubble
  alone.
\<close>

definition hit_world :: PhysicsEngine where
  "hit_world = shootBullet 0 0 0 (addBubble 0 0 10 1 0 PhysicsEngine_new)"

definition lone_world :: PhysicsEngine where
  "lone_world = addBubble 0 0 10 1 0 PhysicsEngine_new"

text \<open>
  Two bubbles at the origin, of radius 10 and 12, and one bullet shot from their
  centre: the bullet overlaps both.
\<close>

definition pair_world :: PhysicsEngine where
  "pair_world = shootBullet 0 0 0 (addBubble 0 0 12 1 0 (addBubble 0 0 10 1 0 PhysicsEngine_new))"

section \<open>Auxiliary facts\<close>

lemma erase_remove_if_filter: "erase_remove_if pred as = filter (\<lambda>a. \<not> pred a) as"
  by (induction as) simp_all

lemma bubbles_cleanup: "bubbles (cleanup w) = filter active (bubbles w)"
  by (simp add: cleanup_def Let_def erase_remove_if_filter)

lemma bullets_cleanup: "bullets (cleanup w) = filter active (bullets w)"
  by (simp add: cleanup_def Let_def erase_remove_if_filter)

lemma update_unfold:
  "update rmax dt (w, g) =
     (cleanup (fst (snd (checkCollisions rmax (update_objects dt w, g)))),
      snd (snd (checkCollisions rmax (update_objects dt w, g))))"
  by (simp add: update_def split: prod.splits)

text \<open>
  The collision test without the square root: the distance of the centres is below the
  sum of the radii exactly when that sum is positive and the squared distance is below
  its square.
\<close>

lemma hits_iff:
  "hits bullet bubble \<longleftrightarrow>
     0 < radius bullet + radius bubble \<and>
     (x (position bullet) - x (position bubble)) * (x (position bullet) - x (position bubble))
       + (y (position bullet) - y (position bubble)) * (y (position bullet) - y (position bubble))
       < (radius bullet + radius bubble) * (radius bullet + radius bubble)"
proof -
  let ?d = "(x (position bullet) - x (position bubble)) * (x (position bullet) - x (position bubble))
       + (y (position bullet) - y (position bubble)) * (y (position bullet) - y (position bubble))"
  let ?r = "radius bullet + radius bubble"
  have d: "0 \<le> ?d" by simp
  have "sqrt ?d < ?r \<longleftrightarrow> 0 < ?r \<and> ?d < ?r * ?r"
  proof (cases "0 < ?r")
    case True
    then have r: "sqrt (?r * ?r) = ?r" by simp
    have "sqrt ?d < sqrt (?r * ?r) \<longleftrightarrow> ?d < ?r * ?r" by (rule real_sqrt_less_iff)
    then have "sqrt ?d < ?r \<longleftrightarrow> ?d < ?r * ?r" by (simp only: r)
    then show ?thesis using True by blast
  next
    case False
    then have "\<not> sqrt ?d < ?r" using real_sqrt_ge_zero[OF d] by linarith
    then show ?thesis using False by simp
  qed
  then show ?thesis by (simp add: hits_def Let_def)
qed

lemma sqrt_64: "sqrt 64 = (8::real)"
  using real_sqrt_abs2[of 8] by simp

lemma apart_world_update:
  "fst (update 32767 1 (apart_world, zero_rng)) =
     \<lparr>bubbles = [\<lparr>position = \<lparr>x = 0, y = 11 / 10\<rparr>, velocity = \<lparr>x = 0, y = 11 / 10\<rparr>,
                  radius = 10, active = True, colorIndex = 0, Bubble.speed = 1,
                  isSpecial = False\<rparr>],
      bullets = [\<lparr>position = \<lparr>x = 108, y = 0\<rparr>, velocity = \<lparr>x = 8, y = 0\<rparr>,
                  radius = 5, active = True, Bullet.speed = 8,
                  maxDistance = 1000, distanceTraveled = 8\<rparr>],
      gameTime = 1, bubblesDestroyed = 0, speedMultiplier = 1\<rparr>"
  by (simp add: update_unfold apart_world_def shootBullet_def addBubble_def PhysicsEngine_new_def
     Bubble_new_def Bullet_new_def update_objects_def Bubble_update_def Bullet_update_def
     GameObject_update_def checkCollisions_def collideBullet_def hits_iff cleanup_def Let_def sqrt_64)

lemma map_upt_Suc_shift: "map f [0..<Suc m] = f 0 # map (\<lambda>j. f (Suc j)) [0..<m]"
  by (simp only: upt_conv_Cons [of 0 "Suc m"] zero_less_Suc if_True list.map map_Suc_upt [symmetric] map_map comp_def)

lemma rand_unit_eq: "rand_unit rmax g = (real (g 0) / real_of_int rmax, \<lambda>n. g (Suc n))"
  by (simp add: rand_unit_def rand_def)

lemma rand_unit_range:
  assumes "0 < rmax" "int d \<le> rmax"
  shows "0 \<le> real d / real_of_int rmax" "real d / real_of_int rmax \<le> 1"
proof -
  show "0 \<le> real d / real_of_int rmax" using assms by simp
  have "real d \<le> real_of_int rmax" using assms(2) by linarith
  then show "real d / real_of_int rmax \<le> 1" using assms(1) by simp
qed

lemma unit_scale:
  fixes u c :: real
  assumes "0 \<le> u" "u \<le> 1" "0 \<le> c"
  shows "0 \<le> u * c" "u * c \<le> c"
  using assms by (simp_all add: mult_left_le_one_le)

lemma affine_range:
  fixes u k a :: real
  assumes "0 \<le> u" "u \<le> 1" "0 \<le> k"
  shows "a \<le> a + u * k" "a + u * k \<le> a + k"
  using unit_scale [OF assms] by simp_all

lemma predictTrajectory_loop_closed:
  "predictTrajectory_loop i steps vx vy (px, py, tr) =
     tr @ map (\<lambda>j. \<lparr>x = px + real j * (vx * 0.016), y = py + real j * (vy * 0.016)\<rparr>)
            [0..<nat (steps - i)]"
proof (induction "nat (steps - i)" arbitrary: i px py tr)
  case 0
  then have "\<not> i < steps" by simp
  then show ?case using 0 by (simp add: predictTrajectory_loop.simps)
next
  case (Suc m)
  then have lt: "i < steps" and m: "m = nat (steps - (i + 1))" by simp_all
  have "predictTrajectory_loop i steps vx vy (px, py, tr) =
        predictTrajectory_loop (i + 1) steps vx vy
          (px + vx * 0.016, py + vy * 0.016, tr @ [\<lparr>x = px, y = py\<rparr>])"
    using lt by (simp add: predictTrajectory_loop.simps [of i])
  also have "\<dots> = (tr @ [\<lparr>x = px, y = py\<rparr>]) @
      map (\<lambda>j. \<lparr>x = px + vx * 0.016 + real j * (vx * 0.016),
                y = py + vy * 0.016 + real j * (vy * 0.016)\<rparr>) [0..<m]"
    using Suc.hyps(1) [OF m] m by simp
  also have "\<dots> = tr @ map (\<lambda>j. \<lparr>x = px + real j * (vx * 0.016), y = py + real j * (vy * 0.016)\<rparr>)
            [0..<Suc m]"
    by (simp add: map_upt_Suc_shift algebra_simps del: upt_Suc)
  finally show ?case using Suc.hyps(2) by simp
qed

lemma createExplosion_loop_closed:
  "createExplosion_loop rmax i n px py r (bs, g) =
     (bs @ map (\<lambda>j. spec_particle rmax px py r n (i + int j) (g j)) [0..<nat (n - i)],
      \<lambda>k. g (k + nat (n - i)))"
proof (induction "nat (n - i)" arbitrary: i bs g)
  case 0
  then have "\<not> i < n" by simp
  then show ?case using 0 by (simp add: createExplosion_loop.simps)
next
  case (Suc m)
  then have lt: "i < n" and m: "m = nat (n - (i + 1))" by simp_all
  let ?p = "spec_particle rmax px py r n i (g 0)"
  have "createExplosion_loop rmax i n px py r (bs, g) =
        createExplosion_loop rmax (i + 1) n px py r (bs @ [?p], \<lambda>k. g (Suc k))"
    using lt by (simp add: createExplosion_loop.simps [of rmax i] rand_unit_eq Let_def
        spec_particle_def Bubble_new_def)
  also have "\<dots> = ((bs @ [?p]) @ map (\<lambda>j. spec_particle rmax px py r n (i + 1 + int j) (g (Suc j))) [0..<m],
      \<lambda>k. g (Suc (k + m)))"
    using Suc.hyps(1) [OF m] m by simp
  also have "\<dots> = (bs @ map (\<lambda>j. spec_particle rmax px py r n (i + int j) (g j)) [0..<Suc m],
      \<lambda>k. g (k + Suc m))"
    by (simp add: map_upt_Suc_shift add.assoc del: upt_Suc) 
  finally show ?case using Suc.hyps(2) by simp
qed

lemma createExplosion_closed:
  "createExplosion rmax px py r (w, g) =
     (w\<lparr>bubbles := bubbles w @
          map (\<lambda>j. spec_particle rmax px py r (6 + int (g 0) mod 4) (int j) (g (Suc j)))
            [0..<nat (6 + int (g 0) mod 4)]\<rparr>,
      \<lambda>k. g (Suc (k + nat (6 + int (g 0) mod 4))))"
  by (simp add: createExplosion_def rand_def createExplosion_loop_closed Let_def)

lemma spec_particle_fields:
  "position (spec_particle rmax px py r n i d) = \<lparr>x = px, y = py\<rparr>"
  "radius (spec_particle rmax px py r n i d) = 0.3 * r"
  "colorIndex (spec_particle rmax px py r n i d) = 4"
  "active (spec_particle rmax px py r n i d)"
  "Bubble.speed (spec_particle rmax px py r n i d) = 2 + real d / real_of_int rmax * 3"
  "velocity (spec_particle rmax px py r n i d) =
     \<lparr>x = cos (2 * PI * real_of_int i / real_of_int n) * Bubble.speed (spec_particle rmax px py r n i d),
      y = sin (2 * PI * real_of_int i / real_of_int n) * Bubble.speed (spec_particle rmax px py r n i d)\<rparr>"
  by (simp_all add: spec_particle_def)

lemma spec_particle_speed_range:
  assumes "0 < rmax" "int d \<le> rmax"
  shows "2 \<le> Bubble.speed (spec_particle rmax px py r n i d)"
    and "Bubble.speed (spec_particle rmax px py r n i d) \<le> 5"
proof -
  note u = rand_unit_range [OF assms]
  show "2 \<le> Bubble.speed (spec_particle rmax px py r n i d)"
    using affine_range(1) [OF u, of 3 2] by (simp add: spec_particle_fields(5))
  show "Bubble.speed (spec_particle rmax px py r n i d) \<le> 5"
    using affine_range(2) [OF u, of 3 2] by (simp add: spec_particle_fields(5))
qed

lemma collideBullet_hit:
  assumes "active bullet" "scanBubbles bullet (bubbles w) = (bs, Some bubble)"
  shows "collideBullet rmax bullet (c, w, g) =
     (bullet\<lparr>active := False\<rparr>,
      (c + 1,
       createExplosion rmax (x (position bubble)) (y (position bubble)) (radius bubble)
         (w\<lparr>bubbles := bs, bubblesDestroyed := bubblesDestroyed w + 1\<rparr>, g)))"
  using assms by (simp add: collideBullet_def Let_def split: prod.splits)

lemma collideBullet_miss:
  assumes "\<not> active bullet \<or> snd (scanBubbles bullet (bubbles w)) = None"
  shows "collideBullet rmax bullet (c, w, g) = (bullet, (c, w, g))"
  using assms by (auto simp add: collideBullet_def Let_def split: prod.splits option.splits)

lemma spawned_in_ranges:
  fixes u1 u2 u3 u4 :: real
  assumes "0 \<le> u1" "u1 \<le> 1" "0 \<le> u2" "u2 \<le> 1" "0 \<le> u3" "u3 \<le> 1" "0 \<le> u4" "u4 \<le> 1"
  shows "spawn_ranges cw (Bubble_new (12 + u1 * 8 + u2 * (cw - 2 * (12 + u1 * 8)))
           (- (12 + u1 * 8) - u3 * 100) (12 + u1 * 8) (1 + u4 * 1.5) (k mod 5))"
proof -
  let ?r = "12 + u1 * 8"
  have r: "12 \<le> ?r" "?r \<le> 20"
    using affine_range [OF assms(1,2), of 8 12] by simp_all
  have px: "2 * ?r \<le> cw \<longrightarrow> ?r \<le> ?r + u2 * (cw - 2 * ?r) \<and> ?r + u2 * (cw - 2 * ?r) \<le> cw - ?r"
  proof
    assume "2 * ?r \<le> cw"
    then have "0 \<le> cw - 2 * ?r" by simp
    from affine_range [OF assms(3,4) this, of ?r]
    show "?r \<le> ?r + u2 * (cw - 2 * ?r) \<and> ?r + u2 * (cw - 2 * ?r) \<le> cw - ?r" by simp
  qed
  have py: "- ?r - 100 \<le> - ?r - u3 * 100" "- ?r - u3 * 100 \<le> - ?r"
    using unit_scale [OF assms(5,6), of 100] by simp_all
  have s: "1 \<le> 1 + u4 * 1.5" "1 + u4 * 1.5 \<le> 2.5"
    using affine_range [OF assms(7,8), of "1.5" 1] by simp_all
  have c: "k mod 5 \<in> {0, 1, 2, 3, 4}"
  proof -
    have "0 \<le> k mod 5 \<and> k mod 5 < 5" by simp
    then show ?thesis by (simp only: insert_iff empty_iff) presburger
  qed
  have f: "radius (Bubble_new a b ?r (1 + u4 * 1.5) (k mod 5)) = ?r"
     "x (position (Bubble_new a b ?r (1 + u4 * 1.5) (k mod 5))) = a"
     "y (position (Bubble_new a b ?r (1 + u4 * 1.5) (k mod 5))) = b"
     "Bubble.speed (Bubble_new a b ?r (1 + u4 * 1.5) (k mod 5)) = 1 + u4 * 1.5"
     "colorIndex (Bubble_new a b ?r (1 + u4 * 1.5) (k mod 5)) = k mod 5" for a b
    by (simp_all add: Bubble_new_def)
  show ?thesis
    unfolding spawn_ranges_def f using r px py s c by blast
qed

lemma initialize_loop_inv:
  assumes "0 < rmax" "\<forall>k. int (g k) \<le> rmax" "list_all (spawn_ranges cw) bs"
  shows "list_all (spawn_ranges cw) (fst (initialize_loop rmax i n cw (bs, g)))
    \<and> length (fst (initialize_loop rmax i n cw (bs, g))) = length bs + nat (n - i)"
  using assms
proof (induction "nat (n - i)" arbitrary: i bs g)
  case 0
  then have "\<not> i < n" by simp
  then show ?case using 0 by (simp add: initialize_loop.simps)
next
  case (Suc m)
  then have lt: "i < n" and m: "m = nat (n - (i + 1))" by simp_all
  let ?u = "\<lambda>j. real (g j) / real_of_int rmax"
  let ?b = "Bubble_new (12 + ?u 0 * 8 + ?u 1 * (cw - 2 * (12 + ?u 0 * 8)))
           (- (12 + ?u 0 * 8) - ?u 2 * 100) (12 + ?u 0 * 8) (1 + ?u 3 * 1.5) (int (g 4) mod 5)"
  let ?g = "\<lambda>k. g (k + 5)"
  have u: "0 \<le> ?u j" "?u j \<le> 1" for j
    using rand_unit_range [OF Suc.prems(1), of "g j"] Suc.prems(2) by simp_all
  have b: "spawn_ranges cw ?b"
    by (rule spawned_in_ranges) (rule u)+
  have step: "initialize_loop rmax i n cw (bs, g) = initialize_loop rmax (i + 1) n cw (bs @ [?b], ?g)"
    using lt by (simp add: initialize_loop.simps [of rmax i] rand_unit_eq rand_def Let_def
        numeral_eq_Suc)
  have g: "\<forall>k. int (?g k) \<le> rmax" using Suc.prems(2) by simp
  have bs: "list_all (spawn_ranges cw) (bs @ [?b])" using Suc.prems(3) b by simp
  from Suc.hyps(1) [OF m Suc.prems(1) g bs] m Suc.hyps(2)
  show ?case unfolding step by simp
qed

lemma edge_spawn_eq:
  "edge_spawn = \<lparr>position = \<lparr>x = 10, y = - 20\<rparr>, velocity = \<lparr>x = 0, y = 5 / 2\<rparr>, radius = 20,
      active = True, colorIndex = 2, Bubble.speed = 5 / 2, isSpecial = False\<rparr>"
  by (simp add: edge_spawn_def initialize_def initialize_loop.simps rand_unit_eq rand_def
      edge_rng_def Bubble_new_def PhysicsEngine_new_def Let_def)

lemma predictTrajectory_closed:
  "predictTrajectory startX startY angle s steps =
     map (\<lambda>i. \<lparr>x = startX + real i * (cos angle * s * 0.016),
               y = startY + real i * (- sin angle * s * 0.016)\<rparr>) [0..<nat steps]"
  by (simp add: predictTrajectory_def predictTrajectory_loop_closed Let_def)

lemma scanBubbles_None_iff:
  "snd (scanBubbles bl bs) = None \<longleftrightarrow> (\<forall>b \<in> set bs. \<not> (active b \<and> hits bl b))"
  by (induction bs) (auto split: prod.splits)

lemma scanBubbles_first:
  assumes "j < length bs" "active (bs ! j)" "hits bl (bs ! j)"
    and "\<forall>i<j. \<not> (active (bs ! i) \<and> hits bl (bs ! i))"
  shows "scanBubbles bl bs = (bs[j := (bs ! j)\<lparr>active := False\<rparr>], Some (bs ! j))"
  using assms
proof (induction bs arbitrary: j)
  case Nil
  then show ?case by simp
next
  case (Cons b bs)
  show ?case
  proof (cases j)
    case 0
    then show ?thesis using Cons.prems by simp
  next
    case (Suc k)
    have b: "\<not> (active b \<and> hits bl b)" using Cons.prems(4) Suc by auto
    have k: "k < length bs" "active (bs ! k)" "hits bl (bs ! k)"
      using Cons.prems(1-3) Suc by simp_all
    have "\<forall>i<k. \<not> (active (bs ! i) \<and> hits bl (bs ! i))"
    proof (intro allI impI)
      fix i assume "i < k"
      then have "Suc i < j" using Suc by simp
      from Cons.prems(4) [rule_format, OF this] show "\<not> (active (bs ! i) \<and> hits bl (bs ! i))" by simp
    qed
    from Cons.IH [OF k this] b show ?thesis using Suc by auto
  qed
qed

lemma scanBubbles_Some:
  assumes "scanBubbles bl bs = (bs', Some b)"
  shows "\<exists>j<length bs. b = bs ! j \<and> active b \<and> hits bl b
           \<and> (\<forall>i<j. \<not> (active (bs ! i) \<and> hits bl (bs ! i)))
           \<and> bs' = bs[j := b\<lparr>active := False\<rparr>]"
  using assms
proof (induction bs arbitrary: bs')
  case Nil
  then show ?case by simp
next
  case (Cons a bs)
  show ?case
  proof (cases "active a \<and> hits bl a")
    case True
    then have "b = a" "bs' = a\<lparr>active := False\<rparr> # bs" using Cons.prems by auto
    then show ?thesis using True by (intro exI [of _ 0]) simp
  next
    case False
    then obtain r where r: "scanBubbles bl bs = (r, Some b)" "bs' = a # r"
      using Cons.prems by (auto split: prod.splits if_splits)
    from Cons.IH [OF r(1)] obtain j where j: "j < length bs" "b = bs ! j" "active b" "hits bl b"
      "\<forall>i<j. \<not> (active (bs ! i) \<and> hits bl (bs ! i))" "r = bs[j := b\<lparr>active := False\<rparr>]"
      by blast
    have "\<forall>i<Suc j. \<not> (active ((a # bs) ! i) \<and> hits bl ((a # bs) ! i))"
    proof (intro allI impI)
      fix i assume i: "i < Suc j"
      show "\<not> (active ((a # bs) ! i) \<and> hits bl ((a # bs) ! i))"
      proof (cases i)
        case 0
        then show ?thesis using False by simp
      next
        case (Suc k)
        then have "k < j" using i by simp
        with j(5) Suc show ?thesis by simp
      qed
    qed
    with j r(2) show ?thesis by (intro exI [of _ "Suc j"]) simp
  qed
qed

lemma collideBullet_cases:
  obtains (miss) "\<not> active bl \<or> snd (scanBubbles bl (bubbles w)) = None"
      "collideBullet rmax bl (c, w, g) = (bl, (c, w, g))"
  | (hit) j where "active bl" "j < length (bubbles w)" "active (bubbles w ! j)"
      "hits bl (bubbles w ! j)" "\<forall>i<j. \<not> (active (bubbles w ! i) \<and> hits bl (bubbles w ! i))"
      "collideBullet rmax bl (c, w, g) =
         (bl\<lparr>active := False\<rparr>,
          (c + 1,
           createExplosion rmax (x (position (bubbles w ! j))) (y (position (bubbles w ! j)))
             (radius (bubbles w ! j))
             (w\<lparr>bubbles := (bubbles w)[j := (bubbles w ! j)\<lparr>active := False\<rparr>],
                bubblesDestroyed := bubblesDestroyed w + 1\<rparr>, g)))"
proof (cases "\<not> active bl \<or> snd (scanBubbles bl (bubbles w)) = None")
  case True
  then show ?thesis using miss collideBullet_miss by blast
next
  case False
  then obtain bs b where s: "scanBubbles bl (bubbles w) = (bs, Some b)" and a: "active bl"
    by (cases "scanBubbles bl (bubbles w)") auto
  from scanBubbles_Some [OF s] obtain j where j: "j < length (bubbles w)" "b = bubbles w ! j"
    "active b" "hits bl b" "\<forall>i<j. \<not> (active (bubbles w ! i) \<and> hits bl (bubbles w ! i))"
    "bs = (bubbles w)[j := b\<lparr>active := False\<rparr>]" by blast
  show ?thesis
    using hit [of j] a j collideBullet_hit [OF a s, of rmax c g] by simp
qed

lemma inactive_particles:
  "filter (\<lambda>b. \<not> active b) (map (\<lambda>j. spec_particle rmax px py r n (f j) (d j)) js) = []"
  by (induction js) (simp_all add: spec_particle_fields(4))

lemma inactive_count_update:
  assumes "j < length bs" "active (bs ! j)"
  shows "length (filter (\<lambda>b. \<not> active b) (bs[j := (bs ! j)\<lparr>active := False\<rparr>])) =
     Suc (length (filter (\<lambda>b. \<not> active b) bs))"
  using assms
proof (induction bs arbitrary: j)
  case Nil
  then show ?case by simp
next
  case (Cons a bs)
  then show ?case by (cases j) simp_all
qed

lemma collideBullet_counts:
  assumes "collideBullet rmax bl (c, w, g) = (bl', (c', w', g'))"
  shows "bubblesDestroyed w' = bubblesDestroyed w + (c' - c)"
    and "int (length (filter (\<lambda>b. \<not> active b) (bubbles w'))) =
         int (length (filter (\<lambda>b. \<not> active b) (bubbles w))) + (c' - c)"
    and "int (length (filter (\<lambda>b. \<not> active b) [bl'])) =
         int (length (filter (\<lambda>b. \<not> active b) [bl])) + (c' - c)"
    and "c' = c \<or> c' = c + 1"
    and "bullets w' = bullets w"
proof -
  have "bubblesDestroyed w' = bubblesDestroyed w + (c' - c)
    \<and> int (length (filter (\<lambda>b. \<not> active b) (bubbles w'))) =
         int (length (filter (\<lambda>b. \<not> active b) (bubbles w))) + (c' - c)
    \<and> int (length (filter (\<lambda>b. \<not> active b) [bl'])) =
         int (length (filter (\<lambda>b. \<not> active b) [bl])) + (c' - c)
    \<and> (c' = c \<or> c' = c + 1) \<and> bullets w' = bullets w"
  proof (cases rule: collideBullet_cases [of bl w rmax c g])
    case miss
    then show ?thesis using assms by simp
  next
    case (hit j)
    from hit(6) assms have e12: "bl' = bl\<lparr>active := False\<rparr>" "c' = c + 1"
      by simp_all
    from hit(6) assms have "createExplosion rmax (x (position (bubbles w ! j)))
             (y (position (bubbles w ! j))) (radius (bubbles w ! j))
             (w\<lparr>bubbles := (bubbles w)[j := (bubbles w ! j)\<lparr>active := False\<rparr>],
                bubblesDestroyed := bubblesDestroyed w + 1\<rparr>, g) = (w', g')"
      by simp
    then have e3: "w' = fst (createExplosion rmax (x (position (bubbles w ! j)))
             (y (position (bubbles w ! j))) (radius (bubbles w ! j))
             (w\<lparr>bubbles := (bubbles w)[j := (bubbles w ! j)\<lparr>active := False\<rparr>],
                bubblesDestroyed := bubblesDestroyed w + 1\<rparr>, g))"
      by simp
    note e = e12 e3
    show ?thesis
      unfolding e using hit(1) inactive_count_update [OF hit(2,3)]
      by (simp add: createExplosion_closed inactive_particles)
  qed
  then show "bubblesDestroyed w' = bubblesDestroyed w + (c' - c)"
    and "int (length (filter (\<lambda>b. \<not> active b) (bubbles w'))) =
         int (length (filter (\<lambda>b. \<not> active b) (bubbles w))) + (c' - c)"
    and "int (length (filter (\<lambda>b. \<not> active b) [bl'])) =
         int (length (filter (\<lambda>b. \<not> active b) [bl])) + (c' - c)"
    and "c' = c \<or> c' = c + 1"
    and "bullets w' = bullets w" by blast+
qed

lemma collideBullets_counts:
  assumes "collideBullets rmax bls (c, w, g) = (bls', (c', w', g'))"
  shows "bubblesDestroyed w' = bubblesDestroyed w + (c' - c)
    \<and> int (length (filter (\<lambda>b. \<not> active b) (bubbles w'))) =
         int (length (filter (\<lambda>b. \<not> active b) (bubbles w))) + (c' - c)
    \<and> int (length (filter (\<lambda>b. \<not> active b) bls')) =
         int (length (filter (\<lambda>b. \<not> active b) bls)) + (c' - c)
    \<and> c \<le> c' \<and> length bls' = length bls \<and> bullets w' = bullets w"
  using assms
proof (induction bls arbitrary: c w g bls')
  case Nil
  then show ?case by simp
next
  case (Cons bl rest)
  obtain bl1 c1 w1 g1 where one: "collideBullet rmax bl (c, w, g) = (bl1, (c1, w1, g1))"
    by (metis prod_cases3 surj_pair)
  obtain rest1 where more: "collideBullets rmax rest (c1, w1, g1) = (rest1, (c', w', g'))"
    and bls': "bls' = bl1 # rest1"
    using Cons.prems one by (auto split: prod.splits)
  note a = collideBullet_counts [OF one]
  note b = Cons.IH [OF more]
  have "int (length (filter (\<lambda>b. \<not> active b) (bl1 # rest1))) =
        int (length (filter (\<lambda>b. \<not> active b) [bl1])) + int (length (filter (\<lambda>b. \<not> active b) rest1))"
    by simp
  moreover have "int (length (filter (\<lambda>b. \<not> active b) (bl # rest))) =
        int (length (filter (\<lambda>b. \<not> active b) [bl])) + int (length (filter (\<lambda>b. \<not> active b) rest))"
    by simp
  ultimately show ?case
    unfolding bls' using a b by (simp del: filter.simps) linarith
qed

lemma checkCollisions_counts:
  "bubblesDestroyed (fst (snd (checkCollisions rmax (w, g)))) =
     bubblesDestroyed w + fst (checkCollisions rmax (w, g))
   \<and> int (length (filter (\<lambda>b. \<not> active b) (bubbles (fst (snd (checkCollisions rmax (w, g))))))) =
       int (length (filter (\<lambda>b. \<not> active b) (bubbles w))) + fst (checkCollisions rmax (w, g))
   \<and> int (length (filter (\<lambda>b. \<not> active b) (bullets (fst (snd (checkCollisions rmax (w, g))))))) =
       int (length (filter (\<lambda>b. \<not> active b) (bullets w))) + fst (checkCollisions rmax (w, g))
   \<and> 0 \<le> fst (checkCollisions rmax (w, g))
   \<and> length (bullets (fst (snd (checkCollisions rmax (w, g))))) = length (bullets w)"
proof -
  obtain bls c' w' g' where r: "collideBullets rmax (bullets w) (0, w, g) = (bls, (c', w', g'))"
    by (metis prod_cases3 surj_pair)
  from collideBullets_counts [OF r] show ?thesis
    by (simp add: checkCollisions_def r)
qed

lemma deactivated_trans:
  fixes b :: "'a GameObject_scheme"
  assumes "b1 = b \<or> b1 = b\<lparr>active := False\<rparr>" "b2 = b1 \<or> b2 = b1\<lparr>active := False\<rparr>"
  shows "b2 = b \<or> b2 = b\<lparr>active := False\<rparr>"
  using assms by auto

lemma deactivated_active:
  fixes b :: "'a GameObject_scheme"
  assumes "b1 = b \<or> b1 = b\<lparr>active := False\<rparr>" "active b1"
  shows "b1 = b"
  using assms by auto

lemma hits_active_update [simp]:
  "hits (bl\<lparr>active := a\<rparr>) b = hits bl b" "hits bl (b\<lparr>active := a\<rparr>) = hits bl b"
  by (simp_all add: hits_def)

lemma collideBullet_evolve:
  assumes "collideBullet rmax bl (c, w, g) = (bl', (c', w', g'))"
  shows "length (bubbles w) \<le> length (bubbles w')"
    and "\<forall>j<length (bubbles w). bubbles w' ! j = bubbles w ! j
            \<or> bubbles w' ! j = (bubbles w ! j)\<lparr>active := False\<rparr>"
    and "bl' = bl \<or> bl' = bl\<lparr>active := False\<rparr>"
    and "active bl' \<longrightarrow> (\<forall>j<length (bubbles w). \<not> (active (bubbles w ! j) \<and> hits bl (bubbles w ! j)))"
proof -
  have "length (bubbles w) \<le> length (bubbles w')
    \<and> (\<forall>j<length (bubbles w). bubbles w' ! j = bubbles w ! j
            \<or> bubbles w' ! j = (bubbles w ! j)\<lparr>active := False\<rparr>)
    \<and> (bl' = bl \<or> bl' = bl\<lparr>active := False\<rparr>)
    \<and> (active bl' \<longrightarrow> (\<forall>j<length (bubbles w). \<not> (active (bubbles w ! j) \<and> hits bl (bubbles w ! j))))"
  proof (cases rule: collideBullet_cases [of bl w rmax c g])
    case miss
    from miss(2) assms have e: "bl' = bl" "w' = w" by simp_all
    have "active bl \<longrightarrow> (\<forall>j<length (bubbles w). \<not> (active (bubbles w ! j) \<and> hits bl (bubbles w ! j)))"
      using miss(1) scanBubbles_None_iff [of bl "bubbles w"] nth_mem by blast
    then show ?thesis unfolding e by simp
  next
    case (hit j)
    from hit(6) assms have e12: "bl' = bl\<lparr>active := False\<rparr>" by simp
    from hit(6) assms have "createExplosion rmax (x (position (bubbles w ! j)))
             (y (position (bubbles w ! j))) (radius (bubbles w ! j))
             (w\<lparr>bubbles := (bubbles w)[j := (bubbles w ! j)\<lparr>active := False\<rparr>],
                bubblesDestroyed := bubblesDestroyed w + 1\<rparr>, g) = (w', g')"
      by simp
    then have e3: "w' = fst (createExplosion rmax (x (position (bubbles w ! j)))
             (y (position (bubbles w ! j))) (radius (bubbles w ! j))
             (w\<lparr>bubbles := (bubbles w)[j := (bubbles w ! j)\<lparr>active := False\<rparr>],
                bubblesDestroyed := bubblesDestroyed w + 1\<rparr>, g))"
      by simp
    show ?thesis unfolding e12 e3 using hit(2)
      by (auto simp add: createExplosion_closed nth_append nth_list_update)
  qed
  then show "length (bubbles w) \<le> length (bubbles w')"
    and "\<forall>j<length (bubbles w). bubbles w' ! j = bubbles w ! j
            \<or> bubbles w' ! j = (bubbles w ! j)\<lparr>active := False\<rparr>"
    and "bl' = bl \<or> bl' = bl\<lparr>active := False\<rparr>"
    and "active bl' \<longrightarrow> (\<forall>j<length (bubbles w). \<not> (active (bubbles w ! j) \<and> hits bl (bubbles w ! j)))"
    by blast+
qed

lemma collideBullets_resolved:
  assumes "collideBullets rmax bls (c, w, g) = (bls', (c', w', g'))"
  shows "length (bubbles w) \<le> length (bubbles w')
    \<and> (\<forall>j<length (bubbles w). bubbles w' ! j = bubbles w ! j
            \<or> bubbles w' ! j = (bubbles w ! j)\<lparr>active := False\<rparr>)
    \<and> length bls' = length bls
    \<and> (\<forall>i<length bls. (bls' ! i = bls ! i \<or> bls' ! i = (bls ! i)\<lparr>active := False\<rparr>)
          \<and> (\<forall>j<length (bubbles w).
                \<not> (active (bls' ! i) \<and> active (bubbles w' ! j) \<and> hits (bls' ! i) (bubbles w' ! j))))"
  using assms
proof (induction bls arbitrary: c w g bls')
  case Nil
  then show ?case by simp
next
  case (Cons bl rest)
  obtain bl1 c1 w1 g1 where one: "collideBullet rmax bl (c, w, g) = (bl1, (c1, w1, g1))"
    by (metis prod_cases3 surj_pair)
  obtain rest1 where more: "collideBullets rmax rest (c1, w1, g1) = (rest1, (c', w', g'))"
    and bls': "bls' = bl1 # rest1"
    using Cons.prems one by (auto split: prod.splits)
  note a = collideBullet_evolve [OF one]
  from Cons.IH [OF more]
  have l2: "length (bubbles w1) \<le> length (bubbles w')"
    and e2: "\<forall>j<length (bubbles w1). bubbles w' ! j = bubbles w1 ! j
            \<or> bubbles w' ! j = (bubbles w1 ! j)\<lparr>active := False\<rparr>"
    and n2: "length rest1 = length rest"
    and r2: "\<forall>i<length rest. (rest1 ! i = rest ! i \<or> rest1 ! i = (rest ! i)\<lparr>active := False\<rparr>)
          \<and> (\<forall>j<length (bubbles w1).
                \<not> (active (rest1 ! i) \<and> active (bubbles w' ! j) \<and> hits (rest1 ! i) (bubbles w' ! j)))"
    by blast+
  have len: "length (bubbles w) \<le> length (bubbles w')" using a(1) l2 by simp
  have ev: "bubbles w' ! j = bubbles w ! j \<or> bubbles w' ! j = (bubbles w ! j)\<lparr>active := False\<rparr>"
    if "j < length (bubbles w)" for j
  proof -
    from that a(1) have "j < length (bubbles w1)" by simp
    from deactivated_trans [OF a(2) [rule_format, OF that] e2 [rule_format, OF this]]
    show ?thesis .
  qed
  have first: "\<not> (active bl1 \<and> active (bubbles w' ! j) \<and> hits bl1 (bubbles w' ! j))"
    if "j < length (bubbles w)" for j
  proof
    assume h: "active bl1 \<and> active (bubbles w' ! j) \<and> hits bl1 (bubbles w' ! j)"
    then have b: "bl1 = bl" using deactivated_active [OF a(3)] by blast
    from h have "bubbles w' ! j = bubbles w ! j" using deactivated_active [OF ev [OF that]] by blast
    with h b have "active (bubbles w ! j) \<and> hits bl (bubbles w ! j)" by simp
    with a(4) h that show False by blast
  qed
  have each: "((bl1 # rest1) ! i = (bl # rest) ! i \<or> (bl1 # rest1) ! i = ((bl # rest) ! i)\<lparr>active := False\<rparr>)
          \<and> (\<forall>j<length (bubbles w).
                \<not> (active ((bl1 # rest1) ! i) \<and> active (bubbles w' ! j)
                    \<and> hits ((bl1 # rest1) ! i) (bubbles w' ! j)))"
    if "i < length (bl # rest)" for i
  proof (cases i)
    case 0
    then show ?thesis using a(3) first by simp
  next
    case (Suc k)
    then have k: "k < length rest" using that by simp
    have "\<forall>j<length (bubbles w). j < length (bubbles w1)" using a(1) by simp
    with r2 [rule_format, OF k] show ?thesis unfolding Suc by simp
  qed
  show ?case unfolding bls' using len ev n2 each by simp
qed

lemma initialize_loop_inactive:
  "filter (\<lambda>b. \<not> active b) (fst (initialize_loop rmax i n cw (bs, g))) = filter (\<lambda>b. \<not> active b) bs"
proof (induction "nat (n - i)" arbitrary: i bs g)
  case 0
  then have "\<not> i < n" by simp
  then show ?case by (simp add: initialize_loop.simps)
next
  case (Suc m)
  then have lt: "i < n" and m: "m = nat (n - (i + 1))" by simp_all
  obtain b g1 where step: "initialize_loop rmax i n cw (bs, g) =
      initialize_loop rmax (i + 1) n cw (bs @ [b], g1)" and b: "active b"
    using lt by (simp add: initialize_loop.simps [of rmax i] rand_unit_eq rand_def Let_def
        Bubble_new_def)
  from Suc.hyps(1) [OF m, of "bs @ [b]" g1] b show ?case unfolding step by simp
qed

lemma filter_inactive_cleanup:
  "filter (\<lambda>b. \<not> active b) (filter active bs) = []"
  by (induction bs) simp_all

lemma reachable_inactive_balance:
  assumes "reachable rmax w"
  shows "length (filter (\<lambda>b. \<not> active b) (bubbles w)) = length (filter (\<lambda>b. \<not> active b) (bullets w))"
  using assms
proof (induction rule: reachable.induct)
  case reach_new
  then show ?case by (simp add: PhysicsEngine_new_def)
next
  case (reach_initialize w bubbleCount canvasWidth g)
  have "fst (initialize rmax bubbleCount canvasWidth (w, g)) =
     w\<lparr>bubbles := fst (initialize_loop rmax 0 bubbleCount canvasWidth ([], g)), bullets := [],
       gameTime := 0, bubblesDestroyed := 0\<rparr>"
    by (simp add: initialize_def Let_def split: prod.splits)
  then show ?case by (simp add: initialize_loop_inactive)
next
  case (reach_update w deltaTime g)
  show ?case
    by (simp add: update_unfold bubbles_cleanup bullets_cleanup filter_inactive_cleanup)
next
  case (reach_addBubble w px py r s color)
  then show ?case by (simp add: addBubble_def Bubble_new_def)
next
  case (reach_shootBullet w px py angle)
  then show ?case by (simp add: shootBullet_def Bullet_new_def Let_def)
next
  case (reach_checkCollisions w g)
  with checkCollisions_counts [of rmax w g] show ?case by linarith
next
  case (reach_createExplosion w px py r g)
  then show ?case by (simp add: createExplosion_closed inactive_particles)
next
  case (reach_cleanup w)
  show ?case by (simp add: bubbles_cleanup bullets_cleanup filter_inactive_cleanup)
next
  case (reach_setSpeedMultiplier w multiplier)
  have "filter (\<lambda>b. \<not> active b) (map f bs) = map f (filter (\<lambda>b. \<not> active b) bs)"
    if "\<And>b. active (f b) = active b" for f :: "Bubble \<Rightarrow> Bubble" and bs
    using that by (induction bs) simp_all
  then have "length (filter (\<lambda>b. \<not> active b) (bubbles (setSpeedMultiplier multiplier w))) =
     length (filter (\<lambda>b. \<not> active b) (bubbles w))"
    by (simp add: setSpeedMultiplier_def Let_def)
  with reach_setSpeedMultiplier show ?case by (simp add: setSpeedMultiplier_def Let_def)
qed

lemma checkCollisions_no_bullets:
  "bullets w = [] \<Longrightarrow> checkCollisions rmax (w, g) = (0, w, g)"
  by (simp add: checkCollisions_def)

lemma Bubble_update_active: "active (Bubble_update dt b) = active b"
  by (simp add: Bubble_update_def GameObject_update_def Let_def)

lemma hit_world_fields:
  "bullets hit_world = [Bullet_new 0 0 0 8]" "bubbles hit_world = [Bubble_new 0 0 10 1 0]"
  "bubblesDestroyed hit_world = 0"
  by (simp_all add: hit_world_def shootBullet_def addBubble_def PhysicsEngine_new_def)

lemma checkCollisions_resolved:
  "length (bubbles w) \<le> length (bubbles (fst (snd (checkCollisions rmax (w, g)))))
   \<and> (\<forall>j<length (bubbles w).
         bubbles (fst (snd (checkCollisions rmax (w, g)))) ! j = bubbles w ! j
         \<or> bubbles (fst (snd (checkCollisions rmax (w, g)))) ! j = (bubbles w ! j)\<lparr>active := False\<rparr>)
   \<and> length (bullets (fst (snd (checkCollisions rmax (w, g))))) = length (bullets w)
   \<and> (\<forall>i<length (bullets w).
         (bullets (fst (snd (checkCollisions rmax (w, g)))) ! i = bullets w ! i
          \<or> bullets (fst (snd (checkCollisions rmax (w, g)))) ! i = (bullets w ! i)\<lparr>active := False\<rparr>)
         \<and> (\<forall>j<length (bubbles w).
               \<not> (active (bullets (fst (snd (checkCollisions rmax (w, g)))) ! i)
                  \<and> active (bubbles (fst (snd (checkCollisions rmax (w, g)))) ! j)
                  \<and> hits (bullets (fst (snd (checkCollisions rmax (w, g)))) ! i)
                       (bubbles (fst (snd (checkCollisions rmax (w, g)))) ! j))))"
proof -
  obtain bls c' w' g' where r: "collideBullets rmax (bullets w) (0, w, g) = (bls, (c', w', g'))"
    by (metis prod_cases3 surj_pair)
  have e: "bubbles (fst (snd (checkCollisions rmax (w, g)))) = bubbles w'"
    "bullets (fst (snd (checkCollisions rmax (w, g)))) = bls"
    by (simp_all add: checkCollisions_def r)
  from collideBullets_resolved [OF r] show ?thesis unfolding e .
qed

lemma hit_world_moved:
  "bullets (update_objects 1 hit_world) =
     [\<lparr>position = \<lparr>x = 8, y = 0\<rparr>, velocity = \<lparr>x = 8, y = 0\<rparr>, radius = 5, active = True,
       Bullet.speed = 8, maxDistance = 1000, distanceTraveled = 8\<rparr>]"
  "bubbles (update_objects 1 hit_world) =
     [\<lparr>position = \<lparr>x = 0, y = 11 / 10\<rparr>, velocity = \<lparr>x = 0, y = 11 / 10\<rparr>, radius = 10,
       active = True, colorIndex = 0, Bubble.speed = 1, isSpecial = False\<rparr>]"
  by (simp_all add: update_objects_def hit_world_fields Bullet_new_def Bubble_new_def
      Bullet_update_def Bubble_update_def GameObject_update_def Let_def sqrt_64)



lemma collideBullet_frame:
  assumes "collideBullet rmax bl (c, w, g) = (bl', (c', w', g'))"
  shows "collideBullet rmax bl (c + k, w\<lparr>bullets := bls\<rparr>, g) = (bl', (c' + k, w'\<lparr>bullets := bls\<rparr>, g'))"
  using assms
  by (auto simp add: collideBullet_def Let_def createExplosion_closed
      split: prod.splits option.splits if_splits)

lemma collideBullets_frame:
  assumes "collideBullets rmax rest (c, w, g) = (rest', (c', w', g'))"
  shows "collideBullets rmax rest (c + k, w\<lparr>bullets := bls\<rparr>, g) = (rest', (c' + k, w'\<lparr>bullets := bls\<rparr>, g'))"
  using assms
proof (induction rest arbitrary: c w g rest')
  case Nil
  then show ?case by simp
next
  case (Cons bl rest)
  obtain bl1 c1 w1 g1 where one: "collideBullet rmax bl (c, w, g) = (bl1, (c1, w1, g1))"
    by (metis prod_cases3 surj_pair)
  obtain rest1 where more: "collideBullets rmax rest (c1, w1, g1) = (rest1, (c', w', g'))"
    and r: "rest' = bl1 # rest1"
    using Cons.prems one by (auto split: prod.splits)
  from collideBullet_frame [OF one, of k bls] Cons.IH [OF more] r
  show ?case by simp
qed

lemma checkCollisions_Cons:
  assumes "bullets w = b # rest"
    and "collideBullet rmax b (0, w, g) = (b', (c1, w1, g1))"
    and "checkCollisions rmax (w1\<lparr>bullets := rest\<rparr>, g1) = (c2, w2, g2)"
  shows "checkCollisions rmax (w, g) = (c1 + c2, w2\<lparr>bullets := b' # bullets w2\<rparr>, g2)"
proof -
  obtain rest' c' w' g' where
    r: "collideBullets rmax rest (0, w1\<lparr>bullets := rest\<rparr>, g1) = (rest', (c', w', g'))"
    by (metis prod_cases3 surj_pair)
  from assms(3) r have e: "c2 = c'" "w2 = w'\<lparr>bullets := rest'\<rparr>" "g2 = g'"
    by (simp_all add: checkCollisions_def)
  from collideBullets_frame [OF r, of c1 "bullets w1"]
  have "collideBullets rmax rest (c1, w1, g1) = (rest', (c' + c1, w'\<lparr>bullets := bullets w1\<rparr>, g'))"
    by simp
  with assms(1,2) show ?thesis unfolding e by (simp add: checkCollisions_def)
qed

lemma pair_world_fields:
  "bullets pair_world = [Bullet_new 0 0 0 8]"
  "bubbles pair_world = [Bubble_new 0 0 10 1 0, Bubble_new 0 0 12 1 0]"
  "bubblesDestroyed pair_world = 0"
  by (simp_all add: pair_world_def shootBullet_def addBubble_def PhysicsEngine_new_def)

lemma bubblesDestroyed_cleanup: "bubblesDestroyed (cleanup w) = bubblesDestroyed w"
  by (simp add: cleanup_def Let_def)

lemma pair_world_update:
  "bullets (fst (update 2147483647 1 (pair_world, zero_rng))) = []"
  "length (bubbles (fst (update 2147483647 1 (pair_world, zero_rng)))) = 7"
  "bubblesDestroyed (fst (update 2147483647 1 (pair_world, zero_rng))) = 1"
  by (simp_all add: update_unfold update_objects_def checkCollisions_def collideBullet_def
      pair_world_fields hits_iff createExplosion_closed zero_rng_def Let_def bullets_cleanup
      bubbles_cleanup bubblesDestroyed_cleanup Bullet_new_def Bubble_new_def Bullet_update_def
      Bubble_update_def GameObject_update_def sqrt_64 spec_particle_fields filter_map comp_def)

section \<open>Claims\<close>

text \<open>
  C5. After every call of \<open>update\<close> both collections hold active objects only:
  \<open>update\<close> ends with \<open>cleanup\<close>, run once on the result of the collision pass, and
  \<open>cleanup\<close> keeps exactly the active bubbles and the active bullets, in the order
  they had.
\<close>

theorem update_leaves_only_active:
  "(\<forall>b \<in> set (bubbles (fst (update rmax dt (w, g)))). active b)
   \<and> (\<forall>b \<in> set (bullets (fst (update rmax dt (w, g)))). active b)
   \<and> fst (update rmax dt (w, g)) =
       cleanup (fst (snd (checkCollisions rmax (update_objects dt w, g))))
   \<and> bubbles (cleanup w) = filter active (bubbles w)
   \<and> bullets (cleanup w) = filter active (bullets w)
   \<and> subseq (bubbles (cleanup w)) (bubbles w)
   \<and> subseq (bullets (cleanup w)) (bullets w)"
  by (simp add: update_unfold bubbles_cleanup bullets_cleanup)

theorem update_leaves_only_active_witness:
  "length (bubbles (fst (update 32767 1 (apart_world, zero_rng)))) = 1
   \<and> length (bullets (fst (update 32767 1 (apart_world, zero_rng)))) = 1
   \<and> list_all active (bubbles (fst (update 32767 1 (apart_world, zero_rng))))
   \<and> list_all active (bullets (fst (update 32767 1 (apart_world, zero_rng))))"
proof -
  have len: "length (bubbles (fst (update 32767 1 (apart_world, zero_rng)))) = 1
    \<and> length (bullets (fst (update 32767 1 (apart_world, zero_rng)))) = 1"
    by (simp add: apart_world_update)
  from update_leaves_only_active [of 32767 1 apart_world zero_rng]
  have "list_all active (bubbles (fst (update 32767 1 (apart_world, zero_rng))))
    \<and> list_all active (bullets (fst (update 32767 1 (apart_world, zero_rng))))"
    unfolding list_all_iff by blast
  with len show ?thesis by blast
qed

text \<open>
  C7. The update of a bubble first adds \<open>0.1 * dt * speed\<close> to the vertical velocity,
  then assigns \<open>sin (position.y * 0.01) * 0.5\<close> to the horizontal velocity, then moves
  the position by the new velocity times \<open>dt\<close>: the sine reads the vertical position
  before the move, the move uses both new velocity components, and the result does
  not depend on the horizontal velocity the bubble had before. \<open>update\<close> applies this
  to every active bubble and leaves the inactive ones as they are.
\<close>

theorem Bubble_update_steps:
  "Bubble_update dt b =
     b\<lparr>position := \<lparr>x = x (position b) + sin (y (position b) * 0.01) * 0.5 * dt,
                    y = y (position b) + (y (velocity b) + 0.1 * dt * Bubble.speed b) * dt\<rparr>,
       velocity := \<lparr>x = sin (y (position b) * 0.01) * 0.5,
                    y = y (velocity b) + 0.1 * dt * Bubble.speed b\<rparr>\<rparr>
   \<and> Bubble_update dt (b\<lparr>velocity := (velocity b)\<lparr>x := v\<rparr>\<rparr>) = Bubble_update dt b
   \<and> bubbles (update_objects dt w) =
       map (\<lambda>bubble. if active bubble then Bubble_update dt bubble else bubble) (bubbles w)"
  by (simp add: Bubble_update_def GameObject_update_def update_objects_def Let_def)

text \<open>
  C3, as amended. \<open>predictTrajectory\<close> takes no engine and returns one point for each
  step (none when \<open>steps\<close> is negative): point \<open>i\<close> is the start moved \<open>i\<close> times by the
  velocity \<open>(cos angle * speed, - sin angle * speed)\<close> over the fixed time step
  \<open>0.016\<close> of the source, which is not \<open>1 / 60\<close>.
\<close>

theorem predictTrajectory_points:
  "predictTrajectory startX startY angle s steps =
     map (\<lambda>i. \<lparr>x = startX + real i * (cos angle * s * 0.016),
               y = startY + real i * (- sin angle * s * 0.016)\<rparr>) [0..<nat steps]"
  by (rule predictTrajectory_closed)

text \<open>
  For \<open>predictTrajectory(0, 0, 0, 10, 5)\<close> the five points have \<open>y = 0\<close> and \<open>x\<close> grows
  by \<open>10 * 0.016 = 0.16\<close> a step.
\<close>

theorem predictTrajectory_example:
  "predictTrajectory 0 0 0 10 5 =
     [\<lparr>x = 0, y = 0\<rparr>, \<lparr>x = 0.16, y = 0\<rparr>, \<lparr>x = 0.32, y = 0\<rparr>, \<lparr>x = 0.48, y = 0\<rparr>,
      \<lparr>x = 0.64, y = 0\<rparr>]"
  using predictTrajectory_points [of 0 0 0 10 5]
  by (simp add: upt_rec)

text \<open>The step of \<open>x\<close> in that call is not \<open>10 * (1 / 60)\<close>, as C3 states it.\<close>

theorem predictTrajectory_step_counterexample:
  "x (predictTrajectory 0 0 0 10 5 ! 1) - x (predictTrajectory 0 0 0 10 5 ! 0) \<noteq> 10 * (1 / 60)"
  by (simp add: predictTrajectory_closed upt_rec)

text \<open>
  C4, as amended. For a random source with values in \<open>0 .. RAND_MAX\<close>,
  \<open>createExplosion\<close> appends between 6 and 9 particles (6 plus the first random value
  modulo 4) after the bubbles already there; each is at the given position, has
  radius \<open>0.3 * r\<close>, colour 4 and a speed of its own in the closed interval from 2 to
  5; particle \<open>j\<close> has the velocity \<open>(cos angle * speed, sin angle * speed)\<close> for the
  angle \<open>2 * PI * j / count\<close>. The collision of a bullet calls it with the position
  and the radius of the bubble that was hit.
\<close>

theorem createExplosion_particles:
  assumes "0 < rmax" and "\<forall>k. int (g k) \<le> rmax"
  shows "6 \<le> 6 + int (g 0) mod 4 \<and> 6 + int (g 0) mod 4 \<le> 9
    \<and> bubbles (fst (createExplosion rmax px py r (w, g))) =
        bubbles w @ map (\<lambda>j. spec_particle rmax px py r (6 + int (g 0) mod 4) (int j) (g (Suc j)))
                     [0..<nat (6 + int (g 0) mod 4)]
    \<and> length (bubbles (fst (createExplosion rmax px py r (w, g)))) =
        length (bubbles w) + nat (6 + int (g 0) mod 4)
    \<and> (\<forall>p \<in> set (drop (length (bubbles w)) (bubbles (fst (createExplosion rmax px py r (w, g))))).
          position p = \<lparr>x = px, y = py\<rparr> \<and> radius p = 0.3 * r \<and> colorIndex p = 4
          \<and> 2 \<le> Bubble.speed p \<and> Bubble.speed p \<le> 5)
    \<and> (\<forall>j < nat (6 + int (g 0) mod 4).
          velocity (bubbles (fst (createExplosion rmax px py r (w, g))) ! (length (bubbles w) + j)) =
            \<lparr>x = cos (2 * PI * real j / real_of_int (6 + int (g 0) mod 4))
                   * Bubble.speed (bubbles (fst (createExplosion rmax px py r (w, g))) ! (length (bubbles w) + j)),
             y = sin (2 * PI * real j / real_of_int (6 + int (g 0) mod 4))
                   * Bubble.speed (bubbles (fst (createExplosion rmax px py r (w, g))) ! (length (bubbles w) + j))\<rparr>)
    \<and> (active bullet \<and> scanBubbles bullet (bubbles w) = (bs, Some bubble) \<longrightarrow>
          bubbles (fst (snd (snd (collideBullet rmax bullet (c, w, g))))) =
            bs @ map (\<lambda>j. spec_particle rmax (x (position bubble)) (y (position bubble)) (radius bubble)
                            (6 + int (g 0) mod 4) (int j) (g (Suc j)))
                   [0..<nat (6 + int (g 0) mod 4)])"
proof -
  let ?n = "6 + int (g 0) mod 4"
  have n: "6 \<le> ?n \<and> ?n \<le> 9" by presburger
  have b: "bubbles (fst (createExplosion rmax px py r (w, g))) =
        bubbles w @ map (\<lambda>j. spec_particle rmax px py r ?n (int j) (g (Suc j))) [0..<nat ?n]"
    by (simp add: createExplosion_closed)
  have l: "length (bubbles (fst (createExplosion rmax px py r (w, g)))) = length (bubbles w) + nat ?n"
    by (simp add: b)
  have p: "\<forall>p \<in> set (drop (length (bubbles w)) (bubbles (fst (createExplosion rmax px py r (w, g))))).
          position p = \<lparr>x = px, y = py\<rparr> \<and> radius p = 0.3 * r \<and> colorIndex p = 4
          \<and> 2 \<le> Bubble.speed p \<and> Bubble.speed p \<le> 5"
    using spec_particle_speed_range [OF assms(1)] assms(2)
    by (auto simp add: b spec_particle_fields(1-3))
  have v: "\<forall>j < nat ?n.
          velocity (bubbles (fst (createExplosion rmax px py r (w, g))) ! (length (bubbles w) + j)) =
            \<lparr>x = cos (2 * PI * real j / real_of_int ?n)
                   * Bubble.speed (bubbles (fst (createExplosion rmax px py r (w, g))) ! (length (bubbles w) + j)),
             y = sin (2 * PI * real j / real_of_int ?n)
                   * Bubble.speed (bubbles (fst (createExplosion rmax px py r (w, g))) ! (length (bubbles w) + j))\<rparr>"
    by (simp add: b nth_append spec_particle_fields(6))
  have h: "active bullet \<and> scanBubbles bullet (bubbles w) = (bs, Some bubble) \<longrightarrow>
          bubbles (fst (snd (snd (collideBullet rmax bullet (c, w, g))))) =
            bs @ map (\<lambda>j. spec_particle rmax (x (position bubble)) (y (position bubble)) (radius bubble)
                            ?n (int j) (g (Suc j))) [0..<nat ?n]"
    by (simp add: collideBullet_hit createExplosion_closed)
  from n b l p v h show ?thesis by blast
qed

theorem createExplosion_particles_witness:
  "(0::int) < 2147483647 \<and> (\<forall>k. int (zero_rng k) \<le> 2147483647)
   \<and> length (bubbles (fst (createExplosion 2147483647 0 0 10 (PhysicsEngine_new, zero_rng)))) = 6
   \<and> list_all (\<lambda>p. position p = \<lparr>x = 0, y = 0\<rparr> \<and> radius p = 3 \<and> colorIndex p = 4
                    \<and> 2 \<le> Bubble.speed p \<and> Bubble.speed p \<le> 5)
        (bubbles (fst (createExplosion 2147483647 0 0 10 (PhysicsEngine_new, zero_rng))))"
proof -
  have h1: "(0::int) < 2147483647" by simp
  have h2: "\<forall>k. int (zero_rng k) \<le> 2147483647" by (simp add: zero_rng_def)
  have z: "zero_rng 0 = 0" "bubbles PhysicsEngine_new = []"
    by (simp_all add: zero_rng_def PhysicsEngine_new_def)
  note t = createExplosion_particles [OF h1 h2, of 0 0 10 PhysicsEngine_new]
  have len: "length (bubbles (fst (createExplosion 2147483647 0 0 10 (PhysicsEngine_new, zero_rng)))) = 6"
    using t [THEN conjunct2, THEN conjunct2, THEN conjunct2, THEN conjunct1] by (simp add: z)
  have "\<forall>p \<in> set (bubbles (fst (createExplosion 2147483647 0 0 10 (PhysicsEngine_new, zero_rng)))).
         position p = \<lparr>x = 0, y = 0\<rparr> \<and> radius p = 3 \<and> colorIndex p = 4
                    \<and> 2 \<le> Bubble.speed p \<and> Bubble.speed p \<le> 5"
    using t [THEN conjunct2, THEN conjunct2, THEN conjunct2, THEN conjunct2, THEN conjunct1]
    by (simp add: z)
  then have "list_all (\<lambda>p. position p = \<lparr>x = 0, y = 0\<rparr> \<and> radius p = 3 \<and> colorIndex p = 4
                    \<and> 2 \<le> Bubble.speed p \<and> Bubble.speed p \<le> 5)
        (bubbles (fst (createExplosion 2147483647 0 0 10 (PhysicsEngine_new, zero_rng))))"
    by (simp only: list_all_iff)
  with h1 h2 len show ?thesis by blast
qed

text \<open>
  When \<^verbatim>\<open>rand()\<close> returns \<^verbatim>\<open>RAND_MAX\<close> the speed of the particle is 5, outside the
  half-open interval of C4.
\<close>

theorem createExplosion_speed_counterexample:
  "\<not> Bubble.speed edge_particle < 5"
  by (simp add: edge_particle_def createExplosion_closed PhysicsEngine_new_def edge_rng_def
      upt_rec [of 0] spec_particle_fields)

text \<open>
  C8. \<open>setSpeedMultiplier m\<close> multiplies the speed of every bubble of the collection
  by \<open>m\<close> and sets its vertical velocity to the new speed. A bubble added afterwards is
  the bubble the constructor builds: its speed is the one given and its velocity is
  \<open>(0, speed)\<close>. The bubbles that \<open>initialize\<close> spawns and the particles that
  \<open>createExplosion\<close> appends are the same with or without an earlier call.
\<close>

theorem setSpeedMultiplier_scales_existing:
  "bubbles (setSpeedMultiplier m w) =
     map (\<lambda>b. b\<lparr>Bubble.speed := Bubble.speed b * m,
                velocity := (velocity b)\<lparr>y := Bubble.speed b * m\<rparr>\<rparr>) (bubbles w)
   \<and> bubbles (addBubble px py r s c (setSpeedMultiplier m w)) =
       bubbles (setSpeedMultiplier m w) @ [Bubble_new px py r s c]
   \<and> Bubble.speed (Bubble_new px py r s c) = s
   \<and> velocity (Bubble_new px py r s c) = \<lparr>x = 0, y = s\<rparr>
   \<and> bubbles (fst (initialize rmax n cw (setSpeedMultiplier m w, g))) =
       bubbles (fst (initialize rmax n cw (w, g)))
   \<and> drop (length (bubbles w)) (bubbles (fst (createExplosion rmax px py r (setSpeedMultiplier m w, g)))) =
       drop (length (bubbles w)) (bubbles (fst (createExplosion rmax px py r (w, g))))"
  by (simp add: setSpeedMultiplier_def addBubble_def Bubble_new_def Let_def initialize_def
      createExplosion_closed split: prod.splits)

text \<open>
  C9, as amended. For a random source with values in \<open>0 .. RAND_MAX\<close>, \<open>initialize\<close>
  empties the bullets, sets \<open>gameTime\<close> and \<open>bubblesDestroyed\<close> to zero and leaves
  exactly \<open>bubbleCount\<close> bubbles (none for a negative count), each within
  \<open>spawn_ranges\<close>: radius in \<open>[12, 20]\<close>, \<open>y\<close> in \<open>[- radius - 100, - radius]\<close>, speed in
  \<open>[1, 2.5]\<close>, colour in \<open>{0, 1, 2, 3, 4}\<close>, and \<open>x\<close> in \<open>[radius, canvasWidth - radius]\<close>
  when the canvas is at least \<open>2 * radius\<close> wide.
\<close>

theorem initialize_spawns:
  assumes "0 < rmax" and "\<forall>k. int (g k) \<le> rmax"
  shows "bullets (fst (initialize rmax bubbleCount canvasWidth (w, g))) = []
    \<and> gameTime (fst (initialize rmax bubbleCount canvasWidth (w, g))) = 0
    \<and> bubblesDestroyed (fst (initialize rmax bubbleCount canvasWidth (w, g))) = 0
    \<and> bubbles (fst (initialize rmax bubbleCount canvasWidth (w, g))) =
        fst (initialize_loop rmax 0 bubbleCount canvasWidth ([], g))
    \<and> length (bubbles (fst (initialize rmax bubbleCount canvasWidth (w, g)))) = nat bubbleCount
    \<and> (\<forall>b \<in> set (bubbles (fst (initialize rmax bubbleCount canvasWidth (w, g)))).
          spawn_ranges canvasWidth b)"
proof -
  have e: "fst (initialize rmax bubbleCount canvasWidth (w, g)) =
     w\<lparr>bubbles := fst (initialize_loop rmax 0 bubbleCount canvasWidth ([], g)), bullets := [],
       gameTime := 0, bubblesDestroyed := 0\<rparr>"
    by (simp add: initialize_def Let_def split: prod.splits)
  from initialize_loop_inv [OF assms, of canvasWidth "[]" 0 bubbleCount]
  show ?thesis unfolding e by (simp add: list_all_iff)
qed

theorem initialize_spawns_witness:
  "(0::int) < 2147483647 \<and> (\<forall>k. int (zero_rng k) \<le> 2147483647)
   \<and> length (bubbles (fst (initialize 2147483647 2 200 (PhysicsEngine_new, zero_rng)))) = 2
   \<and> list_all (spawn_ranges 200) (bubbles (fst (initialize 2147483647 2 200 (PhysicsEngine_new, zero_rng))))"
proof -
  have h1: "(0::int) < 2147483647" by simp
  have h2: "\<forall>k. int (zero_rng k) \<le> 2147483647" by (simp add: zero_rng_def)
  note t = initialize_spawns [OF h1 h2, of 2 200 PhysicsEngine_new]
  from t [THEN conjunct2, THEN conjunct2, THEN conjunct2, THEN conjunct2, THEN conjunct1]
  have len:
    "length (bubbles (fst (initialize 2147483647 2 200 (PhysicsEngine_new, zero_rng)))) = 2"
    by simp
  from t have "list_all (spawn_ranges 200)
      (bubbles (fst (initialize 2147483647 2 200 (PhysicsEngine_new, zero_rng))))"
    unfolding list_all_iff by blast
  with h1 h2 len show ?thesis by blast
qed

text \<open>
  On a canvas of width 30, with \<^verbatim>\<open>rand()\<close> returning \<^verbatim>\<open>RAND_MAX\<close> except for the
  third call, which returns 0, the spawned bubble has radius 20, \<open>x = 10\<close>,
  \<open>y = - 20\<close> and speed 2.5: outside the half-open ranges of C9.
\<close>

theorem initialize_ranges_counterexample:
  "\<not> radius edge_spawn < 20
   \<and> \<not> radius edge_spawn \<le> x (position edge_spawn)
   \<and> \<not> y (position edge_spawn) < - radius edge_spawn
   \<and> \<not> Bubble.speed edge_spawn < 2.5"
  by (simp add: edge_spawn_eq)

text \<open>
  C1. The body of the outer loop of \<open>checkCollisions\<close> for one bullet: an inactive
  bullet, or one that hits no active bubble, changes nothing. An active bullet whose
  first hit in collection order is the active bubble at index \<open>j\<close> (distance of the
  centres below the sum of the radii) is marked inactive together with that bubble and
  no other, one collision is counted, \<open>bubblesDestroyed\<close> grows by one and
  \<open>createExplosion\<close> is called with the position and radius of that bubble.

  The pass itself: with no bullets it returns 0 and changes nothing; otherwise it is
  that step on the first bullet, from the count 0, followed by the pass over the
  remaining bullets on the state the step left, and it returns the sum of the two
  counts. So the step is applied to each bullet of the collection, in collection
  order. After the pass every bullet is what it was or that bullet marked inactive,
  and so is every bubble that was there before; no bullet left active hits such a
  bubble left active; the number of inactive bullets, the number of inactive bubbles
  and \<open>bubblesDestroyed\<close> each have grown by exactly the number of collisions
  returned. \<open>update\<close> runs this pass on the moved objects and then \<open>cleanup\<close>.
\<close>

theorem checkCollisions_pairs:
  "(\<not> active bullet \<or> (\<forall>b \<in> set (bubbles w). \<not> (active b \<and> hits bullet b)) \<longrightarrow>
      collideBullet rmax bullet (c, w, g) = (bullet, (c, w, g)))
   \<and> (active bullet \<and> j < length (bubbles w) \<and> active (bubbles w ! j) \<and> hits bullet (bubbles w ! j)
        \<and> (\<forall>i<j. \<not> (active (bubbles w ! i) \<and> hits bullet (bubbles w ! i))) \<longrightarrow>
      collideBullet rmax bullet (c, w, g) =
        (bullet\<lparr>active := False\<rparr>,
         (c + 1,
          createExplosion rmax (x (position (bubbles w ! j))) (y (position (bubbles w ! j)))
            (radius (bubbles w ! j))
            (w\<lparr>bubbles := (bubbles w)[j := (bubbles w ! j)\<lparr>active := False\<rparr>],
               bubblesDestroyed := bubblesDestroyed w + 1\<rparr>, g))))
   \<and> hits bullet bubble =
       (sqrt ((x (position bullet) - x (position bubble)) * (x (position bullet) - x (position bubble))
            + (y (position bullet) - y (position bubble)) * (y (position bullet) - y (position bubble)))
        < radius bullet + radius bubble)
   \<and> (bullets w = [] \<longrightarrow> checkCollisions rmax (w, g) = (0, w, g))
   \<and> (bullets w = first # rest
        \<and> collideBullet rmax first (0, w, g) = (first', (c1, w1, g1))
        \<and> checkCollisions rmax (w1\<lparr>bullets := rest\<rparr>, g1) = (c2, w2, g2) \<longrightarrow>
      checkCollisions rmax (w, g) = (c1 + c2, w2\<lparr>bullets := first' # bullets w2\<rparr>, g2))
   \<and> length (bullets (fst (snd (checkCollisions rmax (w, g))))) = length (bullets w)
   \<and> (\<forall>i<length (bullets w).
         (bullets (fst (snd (checkCollisions rmax (w, g)))) ! i = bullets w ! i
          \<or> bullets (fst (snd (checkCollisions rmax (w, g)))) ! i = (bullets w ! i)\<lparr>active := False\<rparr>)
         \<and> (\<forall>k<length (bubbles w).
               \<not> (active (bullets (fst (snd (checkCollisions rmax (w, g)))) ! i)
                  \<and> active (bubbles (fst (snd (checkCollisions rmax (w, g)))) ! k)
                  \<and> hits (bullets (fst (snd (checkCollisions rmax (w, g)))) ! i)
                       (bubbles (fst (snd (checkCollisions rmax (w, g)))) ! k))))
   \<and> (\<forall>k<length (bubbles w).
         bubbles (fst (snd (checkCollisions rmax (w, g)))) ! k = bubbles w ! k
         \<or> bubbles (fst (snd (checkCollisions rmax (w, g)))) ! k = (bubbles w ! k)\<lparr>active := False\<rparr>)
   \<and> bubblesDestroyed (fst (snd (checkCollisions rmax (w, g)))) =
       bubblesDestroyed w + fst (checkCollisions rmax (w, g))
   \<and> int (length (filter (\<lambda>b. \<not> active b) (bubbles (fst (snd (checkCollisions rmax (w, g))))))) =
       int (length (filter (\<lambda>b. \<not> active b) (bubbles w))) + fst (checkCollisions rmax (w, g))
   \<and> int (length (filter (\<lambda>b. \<not> active b) (bullets (fst (snd (checkCollisions rmax (w, g))))))) =
       int (length (filter (\<lambda>b. \<not> active b) (bullets w))) + fst (checkCollisions rmax (w, g))
   \<and> 0 \<le> fst (checkCollisions rmax (w, g))
   \<and> fst (update rmax dt (w, g)) =
       cleanup (fst (snd (checkCollisions rmax (update_objects dt w, g))))
   \<and> bubblesDestroyed (fst (update rmax dt (w, g))) =
       bubblesDestroyed w + fst (checkCollisions rmax (update_objects dt w, g))"
proof -
  have miss: "\<not> active bullet \<or> (\<forall>b \<in> set (bubbles w). \<not> (active b \<and> hits bullet b)) \<longrightarrow>
      collideBullet rmax bullet (c, w, g) = (bullet, (c, w, g))"
  proof
    assume "\<not> active bullet \<or> (\<forall>b \<in> set (bubbles w). \<not> (active b \<and> hits bullet b))"
    then have "\<not> active bullet \<or> snd (scanBubbles bullet (bubbles w)) = None"
      by (simp only: scanBubbles_None_iff)
    then show "collideBullet rmax bullet (c, w, g) = (bullet, (c, w, g))"
      by (rule collideBullet_miss)
  qed
  have hit: "active bullet \<and> j < length (bubbles w) \<and> active (bubbles w ! j) \<and> hits bullet (bubbles w ! j)
        \<and> (\<forall>i<j. \<not> (active (bubbles w ! i) \<and> hits bullet (bubbles w ! i))) \<longrightarrow>
      collideBullet rmax bullet (c, w, g) =
        (bullet\<lparr>active := False\<rparr>,
         (c + 1,
          createExplosion rmax (x (position (bubbles w ! j))) (y (position (bubbles w ! j)))
            (radius (bubbles w ! j))
            (w\<lparr>bubbles := (bubbles w)[j := (bubbles w ! j)\<lparr>active := False\<rparr>],
               bubblesDestroyed := bubblesDestroyed w + 1\<rparr>, g)))"
  proof
    assume a: "active bullet \<and> j < length (bubbles w) \<and> active (bubbles w ! j) \<and> hits bullet (bubbles w ! j)
        \<and> (\<forall>i<j. \<not> (active (bubbles w ! i) \<and> hits bullet (bubbles w ! i)))"
    then have s: "scanBubbles bullet (bubbles w) =
        ((bubbles w)[j := (bubbles w ! j)\<lparr>active := False\<rparr>], Some (bubbles w ! j))"
      using scanBubbles_first [of j "bubbles w" bullet] by blast
    from a have "active bullet" by blast
    from collideBullet_hit [OF this s]
    show "collideBullet rmax bullet (c, w, g) =
        (bullet\<lparr>active := False\<rparr>,
         (c + 1,
          createExplosion rmax (x (position (bubbles w ! j))) (y (position (bubbles w ! j)))
            (radius (bubbles w ! j))
            (w\<lparr>bubbles := (bubbles w)[j := (bubbles w ! j)\<lparr>active := False\<rparr>],
               bubblesDestroyed := bubblesDestroyed w + 1\<rparr>, g)))" .
  qed
  have h: "hits bullet bubble =
       (sqrt ((x (position bullet) - x (position bubble)) * (x (position bullet) - x (position bubble))
            + (y (position bullet) - y (position bubble)) * (y (position bullet) - y (position bubble)))
        < radius bullet + radius bubble)"
    by (simp add: hits_def Let_def)
  have r0: "bullets w = [] \<longrightarrow> checkCollisions rmax (w, g) = (0, w, g)"
    by (simp add: checkCollisions_no_bullets)
  have r1: "bullets w = first # rest
        \<and> collideBullet rmax first (0, w, g) = (first', (c1, w1, g1))
        \<and> checkCollisions rmax (w1\<lparr>bullets := rest\<rparr>, g1) = (c2, w2, g2) \<longrightarrow>
      checkCollisions rmax (w, g) = (c1 + c2, w2\<lparr>bullets := first' # bullets w2\<rparr>, g2)"
    using checkCollisions_Cons [of w first rest rmax g first' c1 w1 g1 c2 w2 g2] by blast
  note res = checkCollisions_resolved [of w rmax g]
  from res have s1: "length (bullets (fst (snd (checkCollisions rmax (w, g))))) = length (bullets w)"
    by blast
  from res have s2: "\<forall>i<length (bullets w).
         (bullets (fst (snd (checkCollisions rmax (w, g)))) ! i = bullets w ! i
          \<or> bullets (fst (snd (checkCollisions rmax (w, g)))) ! i = (bullets w ! i)\<lparr>active := False\<rparr>)
         \<and> (\<forall>k<length (bubbles w).
               \<not> (active (bullets (fst (snd (checkCollisions rmax (w, g)))) ! i)
                  \<and> active (bubbles (fst (snd (checkCollisions rmax (w, g)))) ! k)
                  \<and> hits (bullets (fst (snd (checkCollisions rmax (w, g)))) ! i)
                       (bubbles (fst (snd (checkCollisions rmax (w, g)))) ! k)))"
    by blast
  from res have s3: "\<forall>k<length (bubbles w).
         bubbles (fst (snd (checkCollisions rmax (w, g)))) ! k = bubbles w ! k
         \<or> bubbles (fst (snd (checkCollisions rmax (w, g)))) ! k = (bubbles w ! k)\<lparr>active := False\<rparr>"
    by blast
  have d0: "bubblesDestroyed (update_objects dt w) = bubblesDestroyed w"
    by (simp add: update_objects_def Let_def)
  have u: "fst (update rmax dt (w, g)) =
       cleanup (fst (snd (checkCollisions rmax (update_objects dt w, g))))"
    by (simp add: update_unfold)
  have ud: "bubblesDestroyed (fst (update rmax dt (w, g))) =
       bubblesDestroyed w + fst (checkCollisions rmax (update_objects dt w, g))"
    unfolding u bubblesDestroyed_cleanup
    using checkCollisions_counts [of rmax "update_objects dt w" g] d0 by simp
  note cnt = checkCollisions_counts [of rmax w g]
  show ?thesis
    apply (intro conjI)
    apply (rule miss)
    apply (rule hit)
    apply (rule h)
    apply (rule r0)
    apply (rule r1)
    apply (rule s1)
    apply (rule s2)
    apply (rule s3)
    apply (rule cnt [THEN conjunct1])
    apply (rule cnt [THEN conjunct2, THEN conjunct1])
    apply (rule cnt [THEN conjunct2, THEN conjunct2, THEN conjunct1])
    apply (rule cnt [THEN conjunct2, THEN conjunct2, THEN conjunct2, THEN conjunct1])
    apply (rule u)
    apply (rule ud)
    done
qed

theorem checkCollisions_pairs_witness:
  "active (Bullet_new 0 0 0 8)
   \<and> active (bubbles pair_world ! 0) \<and> hits (Bullet_new 0 0 0 8) (bubbles pair_world ! 0)
   \<and> active (bubbles pair_world ! 1) \<and> hits (Bullet_new 0 0 0 8) (bubbles pair_world ! 1)
   \<and> bullets pair_world = [Bullet_new 0 0 0 8]
   \<and> fst (checkCollisions 2147483647 (pair_world, zero_rng)) = 1
   \<and> bullets (fst (snd (checkCollisions 2147483647 (pair_world, zero_rng)))) =
       [(Bullet_new 0 0 0 8)\<lparr>active := False\<rparr>]
   \<and> take 2 (bubbles (fst (snd (checkCollisions 2147483647 (pair_world, zero_rng))))) =
       [(bubbles pair_world ! 0)\<lparr>active := False\<rparr>, bubbles pair_world ! 1]
   \<and> length (bubbles (fst (snd (checkCollisions 2147483647 (pair_world, zero_rng))))) = 8
   \<and> bubblesDestroyed (fst (snd (checkCollisions 2147483647 (pair_world, zero_rng)))) = 1
   \<and> bullets (fst (update 2147483647 1 (pair_world, zero_rng))) = []
   \<and> length (bubbles (fst (update 2147483647 1 (pair_world, zero_rng)))) = 7
   \<and> bubblesDestroyed (fst (update 2147483647 1 (pair_world, zero_rng))) = 1"
proof -
  let ?b = "Bullet_new 0 0 0 8"
  let ?w1 = "fst (createExplosion 2147483647 (x (position (bubbles pair_world ! 0)))
            (y (position (bubbles pair_world ! 0))) (radius (bubbles pair_world ! 0))
            (pair_world\<lparr>bubbles := (bubbles pair_world)[0 := (bubbles pair_world ! 0)\<lparr>active := False\<rparr>],
               bubblesDestroyed := bubblesDestroyed pair_world + 1\<rparr>, zero_rng))"
  let ?g1 = "snd (createExplosion 2147483647 (x (position (bubbles pair_world ! 0)))
            (y (position (bubbles pair_world ! 0))) (radius (bubbles pair_world ! 0))
            (pair_world\<lparr>bubbles := (bubbles pair_world)[0 := (bubbles pair_world ! 0)\<lparr>active := False\<rparr>],
               bubblesDestroyed := bubblesDestroyed pair_world + 1\<rparr>, zero_rng))"
  have p: "active ?b" "0 < length (bubbles pair_world)"
    "active (bubbles pair_world ! 0)" "hits ?b (bubbles pair_world ! 0)"
    "active (bubbles pair_world ! 1)" "hits ?b (bubbles pair_world ! 1)"
    "\<forall>i<0. \<not> (active (bubbles pair_world ! i) \<and> hits ?b (bubbles pair_world ! i))"
    by (simp_all add: pair_world_fields hits_iff) (simp_all add: Bullet_new_def Bubble_new_def Let_def)
  have one: "collideBullet 2147483647 ?b (0, pair_world, zero_rng) =
      (?b\<lparr>active := False\<rparr>, (1, ?w1, ?g1))"
    using checkCollisions_pairs [where bullet = ?b and w = pair_world and rmax = 2147483647
        and c = 0 and g = zero_rng and j = 0, THEN conjunct2, THEN conjunct1] p
    by simp
  have rest: "checkCollisions 2147483647 (?w1\<lparr>bullets := []\<rparr>, ?g1) = (0, ?w1\<lparr>bullets := []\<rparr>, ?g1)"
    using checkCollisions_pairs [where w = "?w1\<lparr>bullets := []\<rparr>" and rmax = 2147483647 and g = ?g1,
        THEN conjunct2, THEN conjunct2, THEN conjunct2, THEN conjunct1]
    by simp
  have pass: "checkCollisions 2147483647 (pair_world, zero_rng) =
      (1 + 0, (?w1\<lparr>bullets := []\<rparr>)\<lparr>bullets := ?b\<lparr>active := False\<rparr> # bullets (?w1\<lparr>bullets := []\<rparr>)\<rparr>, ?g1)"
    by (rule checkCollisions_pairs [where w = pair_world and rmax = 2147483647 and g = zero_rng
          and first = ?b and rest = "[]" and first' = "?b\<lparr>active := False\<rparr>" and ?c1.0 = 1
          and ?w1.0 = ?w1 and ?g1.0 = ?g1 and ?c2.0 = 0 and ?w2.0 = "?w1\<lparr>bullets := []\<rparr>" and ?g2.0 = ?g1,
          THEN conjunct2, THEN conjunct2, THEN conjunct2, THEN conjunct2, THEN conjunct1, rule_format])
       (simp add: pair_world_fields(1) one rest)
  have r: "fst (checkCollisions 2147483647 (pair_world, zero_rng)) = 1"
    "bullets (fst (snd (checkCollisions 2147483647 (pair_world, zero_rng)))) = [?b\<lparr>active := False\<rparr>]"
    "take 2 (bubbles (fst (snd (checkCollisions 2147483647 (pair_world, zero_rng))))) =
       [(bubbles pair_world ! 0)\<lparr>active := False\<rparr>, bubbles pair_world ! 1]"
    "length (bubbles (fst (snd (checkCollisions 2147483647 (pair_world, zero_rng))))) = 8"
    "bubblesDestroyed (fst (snd (checkCollisions 2147483647 (pair_world, zero_rng)))) = 1"
    unfolding pass
    by (simp_all add: createExplosion_closed pair_world_fields zero_rng_def)
  from p(1,3-6) pair_world_fields(1) r pair_world_update show ?thesis by blast
qed




text \<open>
  C6. After the collision pass of \<open>update\<close>, no bullet and bubble that were in the
  collections when the pass began are both active and hitting each other: each is what
  it was before the pass or that object marked inactive, so the positions and radii the
  test reads are the same. \<open>update\<close> returns the cleanup of that state; hence no
  bullet left after \<open>update\<close> hits a surviving bubble that was there before the pass.
\<close>

theorem update_resolves_collisions:
  "(\<forall>i<length (bullets (update_objects dt w)). \<forall>j<length (bubbles (update_objects dt w)).
      \<not> (active (bullets (fst (snd (checkCollisions rmax (update_objects dt w, g)))) ! i)
         \<and> active (bubbles (fst (snd (checkCollisions rmax (update_objects dt w, g)))) ! j)
         \<and> hits (bullets (fst (snd (checkCollisions rmax (update_objects dt w, g)))) ! i)
              (bubbles (fst (snd (checkCollisions rmax (update_objects dt w, g)))) ! j)))
   \<and> (\<forall>i<length (bullets (update_objects dt w)).
         bullets (fst (snd (checkCollisions rmax (update_objects dt w, g)))) ! i =
           bullets (update_objects dt w) ! i
         \<or> bullets (fst (snd (checkCollisions rmax (update_objects dt w, g)))) ! i =
           (bullets (update_objects dt w) ! i)\<lparr>active := False\<rparr>)
   \<and> (\<forall>j<length (bubbles (update_objects dt w)).
         bubbles (fst (snd (checkCollisions rmax (update_objects dt w, g)))) ! j =
           bubbles (update_objects dt w) ! j
         \<or> bubbles (fst (snd (checkCollisions rmax (update_objects dt w, g)))) ! j =
           (bubbles (update_objects dt w) ! j)\<lparr>active := False\<rparr>)
   \<and> fst (update rmax dt (w, g)) =
       cleanup (fst (snd (checkCollisions rmax (update_objects dt w, g))))
   \<and> (\<forall>bullet \<in> set (bullets (fst (update rmax dt (w, g)))).
       \<forall>bubble \<in> set (filter active (take (length (bubbles (update_objects dt w)))
                        (bubbles (fst (snd (checkCollisions rmax (update_objects dt w, g))))))).
         \<not> hits bullet bubble)"
proof -
  let ?W = "update_objects dt w"
  let ?W' = "fst (snd (checkCollisions rmax (?W, g)))"
  note r = checkCollisions_resolved [of ?W rmax g]
  from r have len: "length (bubbles ?W) \<le> length (bubbles ?W')"
    and lenb: "length (bullets ?W') = length (bullets ?W)" by blast+
  from r have a: "\<forall>i<length (bullets ?W). \<forall>j<length (bubbles ?W).
      \<not> (active (bullets ?W' ! i) \<and> active (bubbles ?W' ! j) \<and> hits (bullets ?W' ! i) (bubbles ?W' ! j))"
    by blast
  from r have b: "\<forall>i<length (bullets ?W).
         bullets ?W' ! i = bullets ?W ! i \<or> bullets ?W' ! i = (bullets ?W ! i)\<lparr>active := False\<rparr>"
    by blast
  from r have c: "\<forall>j<length (bubbles ?W).
         bubbles ?W' ! j = bubbles ?W ! j \<or> bubbles ?W' ! j = (bubbles ?W ! j)\<lparr>active := False\<rparr>"
    by blast
  have u: "fst (update rmax dt (w, g)) = cleanup ?W'" by (simp add: update_unfold)
  have d: "\<forall>bullet \<in> set (bullets (fst (update rmax dt (w, g)))).
       \<forall>bubble \<in> set (filter active (take (length (bubbles ?W)) (bubbles ?W'))).
         \<not> hits bullet bubble"
  proof (intro ballI)
    fix bullet bubble
    assume "bullet \<in> set (bullets (fst (update rmax dt (w, g))))"
    then have "bullet \<in> set (bullets ?W')" "active bullet"
      unfolding u bullets_cleanup by simp_all
    then obtain i where i: "i < length (bullets ?W)" "bullet = bullets ?W' ! i"
      using lenb by (metis in_set_conv_nth)
    assume "bubble \<in> set (filter active (take (length (bubbles ?W)) (bubbles ?W')))"
    then have "bubble \<in> set (take (length (bubbles ?W)) (bubbles ?W'))" "active bubble"
      by simp_all
    then obtain j where j: "j < length (bubbles ?W)" "bubble = bubbles ?W' ! j"
      using len by (auto simp add: in_set_conv_nth)
    from a i(1) j(1) \<open>active bullet\<close> \<open>active bubble\<close> show "\<not> hits bullet bubble"
      unfolding i(2) j(2) by blast
  qed
  from a b c u d show ?thesis by blast
qed

theorem update_resolves_collisions_witness:
  "0 < length (bullets (update_objects 1 hit_world))
   \<and> 0 < length (bubbles (update_objects 1 hit_world))
   \<and> active (bullets (update_objects 1 hit_world) ! 0)
   \<and> active (bubbles (update_objects 1 hit_world) ! 0)
   \<and> hits (bullets (update_objects 1 hit_world) ! 0) (bubbles (update_objects 1 hit_world) ! 0)
   \<and> \<not> (active (bullets (fst (snd (checkCollisions 2147483647 (update_objects 1 hit_world, zero_rng)))) ! 0)
         \<and> active (bubbles (fst (snd (checkCollisions 2147483647 (update_objects 1 hit_world, zero_rng)))) ! 0)
         \<and> hits (bullets (fst (snd (checkCollisions 2147483647 (update_objects 1 hit_world, zero_rng)))) ! 0)
              (bubbles (fst (snd (checkCollisions 2147483647 (update_objects 1 hit_world, zero_rng)))) ! 0))"
proof -
  have p: "0 < length (bullets (update_objects 1 hit_world))"
    "0 < length (bubbles (update_objects 1 hit_world))"
    "active (bullets (update_objects 1 hit_world) ! 0)"
    "active (bubbles (update_objects 1 hit_world) ! 0)"
    "hits (bullets (update_objects 1 hit_world) ! 0) (bubbles (update_objects 1 hit_world) ! 0)"
    by (simp_all add: hit_world_moved hits_iff)
  from update_resolves_collisions [of 1 hit_world 2147483647 zero_rng, THEN conjunct1,
      rule_format, OF p(1) p(2)] p
  show ?thesis by blast
qed

text \<open>
  C10. In a reachable state with no bullets every bubble is active (the inactive
  bubbles are as many as the inactive bullets), the collision pass changes nothing, the
  update of a bubble keeps its active flag, and \<open>update\<close> maps each bubble to its
  update: the collection keeps its length and \<open>bubblesDestroyed\<close> its value.
\<close>

theorem update_without_bullets:
  assumes "reachable rmax w" and "bullets w = []"
  shows "(\<forall>b \<in> set (bubbles w). active b)
    \<and> bubbles (fst (update rmax dt (w, g))) = map (Bubble_update dt) (bubbles w)
    \<and> length (bubbles (fst (update rmax dt (w, g)))) = length (bubbles w)
    \<and> bullets (fst (update rmax dt (w, g))) = []
    \<and> bubblesDestroyed (fst (update rmax dt (w, g))) = bubblesDestroyed w
    \<and> active (Bubble_update dt b) = active b
    \<and> checkCollisions rmax (w, g) = (0, w, g)"
proof -
  from reachable_inactive_balance [OF assms(1)] assms(2)
  have "filter (\<lambda>b. \<not> active b) (bubbles w) = []" by simp
  then have act: "\<forall>b \<in> set (bubbles w). active b" by (simp add: filter_empty_conv)
  have nb: "bullets (update_objects dt w) = []" using assms(2) by (simp add: update_objects_def Let_def)
  have m: "map (\<lambda>bubble. if active bubble then Bubble_update dt bubble else bubble) (bubbles w) =
      map (Bubble_update dt) (bubbles w)" using act by simp
  have f: "filter active (map (Bubble_update dt) (bubbles w)) = map (Bubble_update dt) (bubbles w)"
    using act by (simp add: filter_map comp_def Bubble_update_active)
  have u: "fst (update rmax dt (w, g)) = cleanup (update_objects dt w)"
    by (simp add: update_unfold checkCollisions_no_bullets [OF nb])
  have bs: "bubbles (fst (update rmax dt (w, g))) = map (Bubble_update dt) (bubbles w)"
    unfolding u bubbles_cleanup by (simp add: update_objects_def Let_def m f)
  have bl: "bullets (fst (update rmax dt (w, g))) = []"
    unfolding u bullets_cleanup by (simp add: nb)
  have bd: "bubblesDestroyed (fst (update rmax dt (w, g))) = bubblesDestroyed w"
    unfolding u by (simp add: cleanup_def update_objects_def Let_def)
  from act bs bl bd Bubble_update_active [of dt b] checkCollisions_no_bullets [OF assms(2), of rmax g]
  show ?thesis by simp
qed

theorem update_without_bullets_witness:
  "reachable 2147483647 lone_world \<and> bullets lone_world = []
   \<and> length (bubbles lone_world) = 1
   \<and> length (bubbles (fst (update 2147483647 1 (lone_world, zero_rng)))) = 1"
proof -
  have r: "reachable 2147483647 lone_world"
    unfolding lone_world_def by (intro reach_addBubble reach_new)
  have b: "bullets lone_world = []" "length (bubbles lone_world) = 1"
    by (simp_all add: lone_world_def addBubble_def PhysicsEngine_new_def)
  from update_without_bullets [OF r b(1), of 1 zero_rng] r b show ?thesis by simp
qed

end
